theory Spec2Isabelle
  imports Main "HOL-Library.Sublist"
begin

text \<open>
  A model of the battlesnake manager: the instance state cache (\<^verbatim>\<open>docker/cache.go\<close>),
  the runtime client (\<^verbatim>\<open>docker/init.go\<close>), the lifecycle scheduler (\<^verbatim>\<open>main.go\<close>), the
  proxy's activation step (\<^verbatim>\<open>api/battlesnake.go\<close>) and the webhook handler with its deploy
  pipeline (\<^verbatim>\<open>api/github.go\<close>). The repository holds two revisions of \<^verbatim>\<open>main.go\<close>,
  \<^verbatim>\<open>docker/init.go\<close> and \<^verbatim>\<open>api/github.go\<close>; the model follows the later one of each,
  the revision that has the per-repository build mutex, the default-branch check, the
  wait for the runtime socket and \<^verbatim>\<open>RepoNameToContainerName\<close>. Console output
  (\<^verbatim>\<open>fmt.Printf\<close>) is left out, except the three lines with which a deploy reports
  that it succeeded, that it starts to clean up old images and that it has finished.
\<close>

section \<open>Time and durations (Go package time, as used by the daemon)\<close>

text \<open>
  An instant is the number of nanoseconds since the zero \<^verbatim>\<open>time.Time{}\<close>. A
  \<^verbatim>\<open>time.Duration\<close> is a signed 64-bit count of nanoseconds: \<^verbatim>\<open>Time.Sub\<close> saturates at
  the largest and smallest duration, plain subtraction of durations wraps around.
\<close>

type_synonym Time = int
type_synonym Duration = int

definition maxDuration :: Duration where
  "maxDuration = 2 ^ 63 - 1"

definition minDuration :: Duration where
  "minDuration = - (2 ^ 63)"

definition time_Second :: Duration where
  "time_Second = 1000000000"

definition time_Minute :: Duration where
  "time_Minute = 60 * time_Second"

definition time_Hour :: Duration where
  "time_Hour = 60 * time_Minute"

definition zeroTime :: Time where
  "zeroTime = 0"

definition timeSub :: "Time \<Rightarrow> Time \<Rightarrow> Duration" where
  "timeSub t u =
     (if t - u > maxDuration then maxDuration
      else if t - u < minDuration then minDuration
      else t - u)"

definition wrap64 :: "int \<Rightarrow> Duration" where
  "wrap64 x = (x + 2 ^ 63) mod 2 ^ 64 - 2 ^ 63"

definition durSub :: "Duration \<Rightarrow> Duration \<Rightarrow> Duration" where
  "durSub a b = wrap64 (a - b)"

section \<open>The environment: runtime socket, sub-processes, file system, clock\<close>

text \<open>
  Everything outside the process is an oracle that answers a call from the transcript of
  the calls made so far and their answers. Each call is appended to the transcript with
  its answer, so the transcript is also the record of what the daemon did to the outside
  world.
\<close>

datatype error =
    ErrorNotRegistered
  | ErrorDoesNotExist
  | StatusError nat
  | TransportError string
  | DecodeError

record ContainerStateJson =
  State_Running :: bool
  State_Paused :: bool
  NetworkSettings_IPAddress :: string
  NetworkSettings_Networks :: "(string \<times> string) list"

datatype postReply = PostFailed string | PostStatus nat

datatype getReply = GetFailed string | GetStatus nat "ContainerStateJson option"

datatype imagesReply = PipeFailed | StartFailed | ReadFailed | ImagesOutput string

datatype effect =
    ENow Time
  | EPost string string postReply
  | EGet string getReply
  | EExec string "string list" bool
  | EImages string imagesReply
  | EMkdirTemp string "string option"
  | ERemoveAll string bool
  | EPrint string

record env =
  clock :: "effect list \<Rightarrow> Time"
  dockerPost :: "effect list \<Rightarrow> string \<Rightarrow> string \<Rightarrow> postReply"
  dockerGet :: "effect list \<Rightarrow> string \<Rightarrow> getReply"
  execCmd :: "effect list \<Rightarrow> string \<Rightarrow> string list \<Rightarrow> bool"
  imagesCmd :: "effect list \<Rightarrow> string \<Rightarrow> imagesReply"
  mkdirTemp :: "effect list \<Rightarrow> string \<Rightarrow> string option"
  removeAll :: "effect list \<Rightarrow> string \<Rightarrow> bool"

definition timeNow :: "env \<Rightarrow> effect list \<Rightarrow> Time \<times> effect list" where
  "timeNow e l = (clock e l, l @ [ENow (clock e l)])"

section \<open>docker/cache.go: the instance state cache\<close>

record ContainerState =
  Running :: bool
  Paused :: bool
  LastUsed :: "Time option"
  IPAddress :: string
  LastUpdate :: "Time option"

type_synonym cache = "string \<rightharpoonup> ContainerState"

type_synonym world = "effect list \<times> cache"

definition zeroState :: ContainerState where
  "zeroState = \<lparr>Running = False, Paused = False, LastUsed = None, IPAddress = [],
     LastUpdate = None\<rparr>"

definition IsRegistered :: "string \<Rightarrow> cache \<Rightarrow> bool" where
  "IsRegistered name st = (case st name of None \<Rightarrow> False | Some _ \<Rightarrow> True)"

definition GetState :: "string \<Rightarrow> cache \<Rightarrow> ContainerState \<times> error option" where
  "GetState name st =
     (case st name of
        None \<Rightarrow> (zeroState, Some ErrorNotRegistered)
      | Some state \<Rightarrow> (state, None))"

fun IterContainers ::
  "(string \<Rightarrow> ContainerState \<Rightarrow> 'a \<Rightarrow> bool \<times> 'a) \<Rightarrow> string list \<Rightarrow> cache \<Rightarrow> 'a \<Rightarrow> 'a" where
  "IterContainers yield [] st acc = acc"
| "IterContainers yield (k # ks) st acc =
     (case st k of
        None \<Rightarrow> IterContainers yield ks st acc
      | Some v \<Rightarrow>
          (case yield k v acc of
             (True, acc') \<Rightarrow> IterContainers yield ks st acc'
           | (False, acc') \<Rightarrow> acc'))"

definition IsStale :: "env \<Rightarrow> string \<Rightarrow> world \<Rightarrow> bool \<times> effect list" where
  "IsStale e name w =
     (case w of (l, st) \<Rightarrow>
        (case st name of
           None \<Rightarrow> (True, l)
         | Some container \<Rightarrow>
             (case LastUpdate container of
                None \<Rightarrow> (True, l)
              | Some u \<Rightarrow>
                  (case timeNow e l of (t, l') \<Rightarrow> (u + 60 * time_Second < t, l')))))"

definition RegisterContainer :: "string \<Rightarrow> cache \<Rightarrow> cache" where
  "RegisterContainer name st =
     (if \<not> IsRegistered name st then st(name \<mapsto> zeroState) else st)"

definition updateState ::
  "env \<Rightarrow> string \<Rightarrow> bool \<Rightarrow> bool \<Rightarrow> string \<Rightarrow> world \<Rightarrow> error option \<times> world" where
  "updateState e name running paused ip w =
     (case w of (l, st) \<Rightarrow>
        (case st name of
           None \<Rightarrow> (Some ErrorNotRegistered, (l, st))
         | Some state \<Rightarrow>
             (case timeNow e l of (t, l') \<Rightarrow>
                (None, (l', st(name \<mapsto> state\<lparr>Running := running, Paused := paused,
                   IPAddress := ip, LastUpdate := Some t\<rparr>))))))"

definition updateRunning ::
  "env \<Rightarrow> string \<Rightarrow> bool \<Rightarrow> bool \<Rightarrow> world \<Rightarrow> error option \<times> world" where
  "updateRunning e name running paused w =
     (case w of (l, st) \<Rightarrow>
        (case st name of
           None \<Rightarrow> (Some ErrorNotRegistered, (l, st))
         | Some state \<Rightarrow>
             (case timeNow e l of (t, l') \<Rightarrow>
                (None, (l', st(name \<mapsto> state\<lparr>Running := running, Paused := paused,
                   LastUpdate := Some t\<rparr>))))))"

definition updatePaused :: "env \<Rightarrow> string \<Rightarrow> bool \<Rightarrow> world \<Rightarrow> error option \<times> world" where
  "updatePaused e name paused w =
     (case w of (l, st) \<Rightarrow>
        (case st name of
           None \<Rightarrow> (Some ErrorNotRegistered, (l, st))
         | Some state \<Rightarrow>
             (case timeNow e l of (t, l') \<Rightarrow>
                (None, (l', st(name \<mapsto> state\<lparr>Paused := paused, LastUpdate := Some t\<rparr>))))))"

definition UpdateUsed :: "env \<Rightarrow> string \<Rightarrow> world \<Rightarrow> error option \<times> world" where
  "UpdateUsed e name w =
     (case w of (l, st) \<Rightarrow>
        (case st name of
           None \<Rightarrow> (Some ErrorNotRegistered, (l, st))
         | Some state \<Rightarrow>
             (case timeNow e l of (t, l') \<Rightarrow>
                (None, (l', st(name \<mapsto> state\<lparr>LastUsed := Some t\<rparr>))))))"

section \<open>docker/init.go: the runtime client\<close>

definition replaceSlash :: "string \<Rightarrow> string" where
  "replaceSlash s = map (\<lambda>c. if c = CHR ''/'' then CHR ''-'' else c) s"

definition RepoNameToContainerName :: "string \<Rightarrow> string" where
  "RepoNameToContainerName repoName = ''bs-'' @ replaceSlash repoName"

definition dockerExecJson ::
  "env \<Rightarrow> string \<Rightarrow> effect list \<Rightarrow> (error + ContainerStateJson) \<times> effect list" where
  "dockerExecJson e name l =
     ((case dockerGet e l name of
         GetFailed msg \<Rightarrow> Inl (TransportError msg)
       | GetStatus code body \<Rightarrow>
           if code = 404 then Inl ErrorDoesNotExist
           else if code \<noteq> 200 then Inl (StatusError code)
           else (case body of None \<Rightarrow> Inl DecodeError | Some result \<Rightarrow> Inr result)),
      l @ [EGet name (dockerGet e l name)])"

definition dockerExecCmd ::
  "env \<Rightarrow> string \<Rightarrow> string \<Rightarrow> effect list \<Rightarrow> error option \<times> effect list" where
  "dockerExecCmd e container action l =
     ((case dockerPost e l container action of
         PostFailed msg \<Rightarrow> Some (TransportError msg)
       | PostStatus code \<Rightarrow>
           if code = 204 \<or> code = 304 then None
           else if code = 404 then Some ErrorDoesNotExist
           else Some (StatusError code)),
      l @ [EPost container action (dockerPost e l container action)])"

fun firstAddress :: "(string \<times> string) list \<Rightarrow> string" where
  "firstAddress [] = []"
| "firstAddress ((n, a) # nets) = (if a \<noteq> [] then a else firstAddress nets)"

definition inspectAddress :: "ContainerStateJson \<Rightarrow> string" where
  "inspectAddress result =
     (if NetworkSettings_IPAddress result = []
      then firstAddress (NetworkSettings_Networks result)
      else NetworkSettings_IPAddress result)"

definition CheckContainer :: "env \<Rightarrow> string \<Rightarrow> world \<Rightarrow> (error + bool) \<times> world" where
  "CheckContainer e name w =
     (case w of (l, st) \<Rightarrow>
        if \<not> IsRegistered name st then (Inl ErrorNotRegistered, (l, st))
        else
          (case dockerExecJson e name l of
             (Inl err, l1) \<Rightarrow> (Inl err, (l1, st))
           | (Inr result, l1) \<Rightarrow>
               (case updateState e name (State_Running result) (State_Paused result)
                       (inspectAddress result) (l1, st) of
                  (Some err, w') \<Rightarrow> (Inl err, w')
                | (None, w') \<Rightarrow>
                    (Inr (State_Running result \<and> \<not> State_Paused result), w'))))"

definition StartContainer :: "env \<Rightarrow> string \<Rightarrow> world \<Rightarrow> error option \<times> world" where
  "StartContainer e name w =
     (case w of (l, st) \<Rightarrow>
        if \<not> IsRegistered name st then (Some ErrorNotRegistered, (l, st))
        else
          (case dockerExecCmd e name ''start'' l of
             (Some err, l1) \<Rightarrow> (Some err, (l1, st))
           | (None, l1) \<Rightarrow>
               (case CheckContainer e name (l1, st) of
                  (Inl err, w') \<Rightarrow> (Some err, w')
                | (Inr _, w') \<Rightarrow> (None, w'))))"

definition StopContainer :: "env \<Rightarrow> string \<Rightarrow> world \<Rightarrow> error option \<times> world" where
  "StopContainer e name w =
     (case w of (l, st) \<Rightarrow>
        if \<not> IsRegistered name st then (Some ErrorNotRegistered, (l, st))
        else
          (case dockerExecCmd e name ''stop'' l of
             (Some err, l1) \<Rightarrow> (Some err, (l1, st))
           | (None, l1) \<Rightarrow> updateRunning e name False False (l1, st)))"

definition PauseContainer :: "env \<Rightarrow> string \<Rightarrow> world \<Rightarrow> error option \<times> world" where
  "PauseContainer e name w =
     (case w of (l, st) \<Rightarrow>
        if \<not> IsRegistered name st then (Some ErrorNotRegistered, (l, st))
        else
          (case dockerExecCmd e name ''pause'' l of
             (Some err, l1) \<Rightarrow> (Some err, (l1, st))
           | (None, l1) \<Rightarrow> updatePaused e name True (l1, st)))"

definition UnpauseContainer :: "env \<Rightarrow> string \<Rightarrow> world \<Rightarrow> error option \<times> world" where
  "UnpauseContainer e name w =
     (case w of (l, st) \<Rightarrow>
        if \<not> IsRegistered name st then (Some ErrorNotRegistered, (l, st))
        else
          (case dockerExecCmd e name ''unpause'' l of
             (Some err, l1) \<Rightarrow> (Some err, (l1, st))
           | (None, l1) \<Rightarrow> updatePaused e name False (l1, st)))"

definition EnsureContainerRunning :: "env \<Rightarrow> string \<Rightarrow> world \<Rightarrow> error option \<times> world" where
  "EnsureContainerRunning e name w =
     (case IsStale e name w of (stale, l1) \<Rightarrow>
        (case (if stale then CheckContainer e name (l1, snd w)
               else (Inr False, (l1, snd w))) of
           (Inl err, w') \<Rightarrow> (Some err, w')
         | (Inr _, w') \<Rightarrow>
             (case GetState name (snd w') of
                (state, Some err) \<Rightarrow> (Some err, w')
              | (state, None) \<Rightarrow>
                  if Running state \<and> Paused state then UnpauseContainer e name w'
                  else if \<not> Running state then StartContainer e name w'
                  else (None, w'))))"

section \<open>main.go: the lifecycle scheduler\<close>

definition PAUSE_DELAY :: Duration where
  "PAUSE_DELAY = time_Minute"

definition STOP_DELAY :: Duration where
  "STOP_DELAY = time_Hour"

record jobVars =
  toStop :: "string list"
  toPause :: "string list"
  nextRunner :: Duration

definition timeSince :: "env \<Rightarrow> ContainerState \<Rightarrow> effect list \<Rightarrow> Duration \<times> effect list" where
  "timeSince e container l =
     (case timeNow e l of (t0, l0) \<Rightarrow>
        (case LastUsed container of
           None \<Rightarrow> (timeSub t0 zeroTime, l0)
         | Some u \<Rightarrow> (case timeNow e l0 of (t1, l1) \<Rightarrow> (timeSub t1 u, l1))))"

text \<open>The function literal that \<^verbatim>\<open>stopOldContainersJob\<close> hands to \<^verbatim>\<open>IterContainers\<close>.\<close>

definition visitContainer ::
  "env \<Rightarrow> string \<Rightarrow> ContainerState \<Rightarrow> effect list \<times> jobVars \<Rightarrow> bool \<times> effect list \<times> jobVars" where
  "visitContainer e name container acc =
     (case acc of (l, vars) \<Rightarrow>
        (case timeSince e container l of (since, l') \<Rightarrow>
           (True, l',
            (if Running container then
               (if \<not> Paused container then
                  (if since < PAUSE_DELAY
                   then vars\<lparr>nextRunner := min (nextRunner vars) (durSub PAUSE_DELAY since)\<rparr>
                   else vars\<lparr>toPause := toPause vars @ [name]\<rparr>)
                else
                  (if since < STOP_DELAY
                   then vars\<lparr>nextRunner := min (nextRunner vars) (durSub STOP_DELAY since)\<rparr>
                   else vars\<lparr>toStop := toStop vars @ [name]\<rparr>))
             else vars))))"

fun stopEach :: "env \<Rightarrow> string list \<Rightarrow> world \<Rightarrow> world" where
  "stopEach e [] w = w"
| "stopEach e (name # names) w = stopEach e names (snd (StopContainer e name w))"

fun pauseEach :: "env \<Rightarrow> string list \<Rightarrow> world \<Rightarrow> world" where
  "pauseEach e [] w = w"
| "pauseEach e (name # names) w = pauseEach e names (snd (PauseContainer e name w))"

text \<open>
  Go leaves the iteration order of a map unspecified: \<open>order\<close> is the order in which this
  pass meets the keys.
\<close>

definition stopOldContainersJob :: "env \<Rightarrow> string list \<Rightarrow> world \<Rightarrow> Duration \<times> world" where
  "stopOldContainersJob e order w =
     (case w of (l, st) \<Rightarrow>
        (case IterContainers (visitContainer e) order st
                (l, \<lparr>toStop = [], toPause = [], nextRunner = time_Minute\<rparr>) of
           (l1, vars) \<Rightarrow>
             (nextRunner vars, pauseEach e (toPause vars) (stopEach e (toStop vars) (l1, st)))))"

section \<open>api: responses and the proxy's activation step\<close>

record response =
  status :: nat
  written :: string

definition logError :: response where
  "logError = \<lparr>status = 500, written = ''500 Internal Server Error''\<rparr>"

definition notFound :: response where
  "notFound = \<lparr>status = 404, written = ''404 Battle-Snake Not Found''\<rparr>"

definition ensureContainerRunning ::
  "env \<Rightarrow> string \<Rightarrow> world \<Rightarrow> (string \<times> bool \<times> response option) \<times> world" where
  "ensureContainerRunning e ident w =
     (case EnsureContainerRunning e ident w of
        (Some err, w') \<Rightarrow>
          if err = ErrorNotRegistered then (([], False, Some notFound), w')
          else (([], False, Some logError), w')
      | (None, w') \<Rightarrow>
          (case GetState ident (snd w') of (state, _) \<Rightarrow> ((IPAddress state, True, None), w')))"

section \<open>api/github.go: the webhook handler\<close>

record buildConfigT =
  Secret :: string
  BuildingMutex :: bool
  Queued :: bool

type_synonym buildConfig = "string \<rightharpoonup> buildConfigT"

definition RegisterSecret :: "string \<Rightarrow> string \<Rightarrow> buildConfig \<Rightarrow> buildConfig" where
  "RegisterSecret repoName secret bc =
     bc(repoName \<mapsto> \<lparr>Secret = secret, BuildingMutex = False, Queued = False\<rparr>)"

definition TryLock :: "buildConfigT \<Rightarrow> bool \<times> buildConfigT" where
  "TryLock conf =
     (if BuildingMutex conf then (False, conf) else (True, conf\<lparr>BuildingMutex := True\<rparr>))"

record repository =
  Private :: bool
  FullName :: string
  DefaultBranch :: string

record pushRequest =
  Ref :: string
  Repository :: repository

text \<open>
  The standard-library functions whose results the handler and the deploy only pass on:
  the JSON decoders, the keyed hash and the hex decoder (\<open>Inl\<close> carries the error text).
\<close>

record lib =
  unmarshalPush :: "string \<Rightarrow> pushRequest option"
  unmarshalImage :: "string \<Rightarrow> string option"
  hmacSum :: "string \<Rightarrow> string \<Rightarrow> string \<Rightarrow> string"
  hexDecodeString :: "string \<Rightarrow> string + string"

text \<open>\<^verbatim>\<open>strings.SplitN(s, sep, 2)\<close> and \<^verbatim>\<open>strings.Split(s, sep)\<close> for a one-byte separator.\<close>

definition splitN2 :: "char \<Rightarrow> string \<Rightarrow> string list" where
  "splitN2 c s =
     (if c \<in> set s then [takeWhile (\<lambda>x. x \<noteq> c) s, tl (dropWhile (\<lambda>x. x \<noteq> c) s)] else [s])"

fun splitOn :: "char \<Rightarrow> string \<Rightarrow> string list" where
  "splitOn c [] = [[]]"
| "splitOn c (x # xs) =
     (if x = c then [] # splitOn c xs
      else (case splitOn c xs of [] \<Rightarrow> [[x]] | w # ws \<Rightarrow> (x # w) # ws))"

definition checkSecret :: "lib \<Rightarrow> string \<Rightarrow> string \<Rightarrow> string \<Rightarrow> string option" where
  "checkSecret lb payload secret sig =
     (let splits = splitN2 (CHR ''='') sig in
      if length splits \<noteq> 2 then Some ''Bad Signature''
      else
        (let sigType = splits ! 0; digest = splits ! 1 in
         if sigType = ''sha1'' \<or> sigType = ''sha256'' then
           (case hexDecodeString lb digest of
              Inl msg \<Rightarrow> Some msg
            | Inr digestSum \<Rightarrow>
                if hmacSum lb sigType secret payload \<noteq> digestSum then Some ''Signature invalid''
                else None)
         else Some ''Unsupported hash algorithm''))"

record request =
  hEvent :: string
  hSignature :: string
  hSignature256 :: string
  hContentType :: string
  hUserAgent :: string
  rBody :: "string option"

definition ignoring :: "string \<Rightarrow> string \<Rightarrow> string \<Rightarrow> response" where
  "ignoring what target branch =
     \<lparr>status = 200, written = what @ target @ [CHR 0x0A] @ ''Only deploying from branch '' @ branch\<rparr>"

text \<open>
  The handler returns its response, the build configuration as it leaves it, and the
  repository for which it started \<^verbatim>\<open>go deployApplication(...)\<close>, if it did.
\<close>

definition githubWebhookHandler ::
  "lib \<Rightarrow> request \<Rightarrow> buildConfig \<Rightarrow> response \<times> buildConfig \<times> string option" where
  "githubWebhookHandler lb r bc =
     (if \<not> prefix ''GitHub-Hookshot/'' (hUserAgent r) then
        (\<lparr>status = 401, written = ''Access Denied''\<rparr>, bc, None)
      else if hContentType r \<noteq> ''application/json'' then
        (\<lparr>status = 400, written = ''Invalid Content-Type. Only json Supported''\<rparr>, bc, None)
      else
        (case rBody r of
           None \<Rightarrow> (\<lparr>status = 400, written = ''Invalid Request''\<rparr>, bc, None)
         | Some payload \<Rightarrow>
        (case unmarshalPush lb payload of
           None \<Rightarrow> (\<lparr>status = 400, written = ''Invalid Request''\<rparr>, bc, None)
         | Some req \<Rightarrow>
        (let repoName = FullName (Repository req);
             sig = (if hSignature256 r \<noteq> [] then hSignature256 r else hSignature r) in
         case bc repoName of
           None \<Rightarrow> (\<lparr>status = 401, written = ''Access Denied: '' @ ''Not registered''\<rparr>, bc, None)
         | Some conf \<Rightarrow>
        (case checkSecret lb payload (Secret conf) sig of
           Some msg \<Rightarrow> (\<lparr>status = 401, written = ''Access Denied: '' @ msg\<rparr>, bc, None)
         | None \<Rightarrow>
             if hEvent r = ''ping'' then (\<lparr>status = 200, written = ''pong''\<rparr>, bc, None)
             else if hEvent r \<noteq> ''push'' then
               (\<lparr>status = 403, written = ''Action Forbidden''\<rparr>, bc, None)
             else if Private (Repository req) then
               (\<lparr>status = 500, written = ''Cannot Access Private Repos''\<rparr>, bc, None)
             else
               (let ref = splitOn (CHR ''/'') (Ref req);
                    branch = DefaultBranch (Repository req) in
                if length ref \<noteq> 3 \<or> ref ! 0 \<noteq> ''refs'' then
                  (ignoring ''Ignoring push to '' (Ref req) branch, bc, None)
                else if ref ! 1 = ''tags'' then
                  (ignoring ''Ignoring push to tag '' (ref ! 2) branch, bc, None)
                else if ref ! 1 \<noteq> ''heads'' then
                  (ignoring ''Ignoring push to '' (Ref req) branch, bc, None)
                else if ref ! 2 \<noteq> branch then
                  (ignoring ''Ignoring push to branch '' (ref ! 2) branch, bc, None)
                else
                  (case TryLock conf of
                     (False, conf') \<Rightarrow>
                       (\<lparr>status = 200,
                         written = ''There is already a job deploying'' @ [CHR 0x0A] @
                           ''Adding the build job to the queue''\<rparr>,
                        bc(repoName \<mapsto> conf'\<lparr>Queued := True\<rparr>), None)
                   | (True, conf') \<Rightarrow>
                       (\<lparr>status = 200, written = ''Deploying '' @ repoName @ ''...''\<rparr>,
                        bc(repoName \<mapsto> conf'), Some repoName))))))))"

section \<open>api/github.go: the deploy pipeline\<close>

definition runCmd :: "env \<Rightarrow> string \<Rightarrow> string list \<Rightarrow> effect list \<Rightarrow> bool \<times> effect list" where
  "runCmd e name args l = (execCmd e l name args, l @ [EExec name args (execCmd e l name args)])"

text \<open>The loop over the lines of the image listing taken before the build.\<close>

fun removeImages ::
  "env \<Rightarrow> lib \<Rightarrow> string list \<Rightarrow> string list \<Rightarrow> effect list \<Rightarrow> effect list" where
  "removeImages e lb [] seenIds l = l"
| "removeImages e lb (line # lines) seenIds l =
     (case unmarshalImage lb line of
        None \<Rightarrow> removeImages e lb lines seenIds l
      | Some ident \<Rightarrow>
          if ident \<in> set seenIds then removeImages e lb lines seenIds l
          else removeImages e lb lines (seenIds @ [ident])
                 (snd (runCmd e ''docker'' [''rmi'', ident] l)))"

definition stopAndRemove :: "env \<Rightarrow> string \<Rightarrow> world \<Rightarrow> bool \<times> world" where
  "stopAndRemove e containerName w =
     (case StopContainer e containerName w of
        (Some err, w') \<Rightarrow> (False, w')
      | (None, (l, st)) \<Rightarrow>
          (case runCmd e ''docker'' [''rm'', containerName] l of (ok, l') \<Rightarrow> (ok, (l', st))))"

text \<open>
  Stop and remove the old container if there was one, run the new one and inspect it;
  \<open>True\<close> when the deploy goes on to report success.
\<close>

definition replaceContainer :: "env \<Rightarrow> string \<Rightarrow> string \<Rightarrow> bool \<Rightarrow> world \<Rightarrow> bool \<times> world" where
  "replaceContainer e repoName containerName exists w =
     (case (if exists then stopAndRemove e containerName w else (True, w)) of
        (False, w1) \<Rightarrow> (False, w1)
      | (True, (l1, st1)) \<Rightarrow>
          (case runCmd e ''docker''
                  [''run'', ''-d'', ''--name'', containerName, repoName @ '':local''] l1 of
             (False, l2) \<Rightarrow> (False, (l2, st1))
           | (True, l2) \<Rightarrow>
               (case CheckContainer e containerName (l2, st1) of
                  (Inl err, w3) \<Rightarrow> (False, w3)
                | (Inr _, w3) \<Rightarrow> (True, w3))))"

definition successfullyDeployed :: "string \<Rightarrow> effect" where
  "successfullyDeployed containerName =
     EPrint (''Successfully deployed '' @ containerName @ [CHR 0x0A])"

definition swapContainer ::
  "env \<Rightarrow> lib \<Rightarrow> string \<Rightarrow> string \<Rightarrow> bool \<Rightarrow> string \<Rightarrow> world \<Rightarrow> world" where
  "swapContainer e lb repoName containerName exists imagesRaw w =
     (case replaceContainer e repoName containerName exists w of
        (False, w3) \<Rightarrow> w3
      | (True, (l3, st3)) \<Rightarrow>
          (removeImages e lb (splitOn (CHR 0x0A) imagesRaw) []
             (l3 @ [successfullyDeployed containerName,
                    EPrint (''Cleaning up old images...'' @ [CHR 0x0A])])
           @ [EPrint (''Finished Cleaning up old images'' @ [CHR 0x0A])], st3))"

definition cloneAndBuild ::
  "env \<Rightarrow> lib \<Rightarrow> string \<Rightarrow> string \<Rightarrow> bool \<Rightarrow> string \<Rightarrow> string \<Rightarrow> world \<Rightarrow> world" where
  "cloneAndBuild e lb repoName containerName exists imagesRaw repoDir w =
     (case w of (l, st) \<Rightarrow>
        (case runCmd e ''git''
                [''clone'', ''https://github.com/'' @ repoName @ ''.git'', repoDir] l of
           (False, l1) \<Rightarrow> (l1, st)
         | (True, l1) \<Rightarrow>
             (case runCmd e ''docker'' [''build'', ''-t'', repoName, repoDir] l1 of
                (False, l2) \<Rightarrow> (l2, st)
              | (True, l2) \<Rightarrow>
                  swapContainer e lb repoName containerName exists imagesRaw (l2, st))))"

definition inScratchDir ::
  "env \<Rightarrow> lib \<Rightarrow> string \<Rightarrow> string \<Rightarrow> bool \<Rightarrow> string \<Rightarrow> world \<Rightarrow> world" where
  "inScratchDir e lb repoName containerName exists imagesRaw w =
     (case w of (l, st) \<Rightarrow>
        (case mkdirTemp e l (containerName @ ''-*'') of
           None \<Rightarrow> (l @ [EMkdirTemp (containerName @ ''-*'') None], st)
         | Some repoDir \<Rightarrow>
             (case cloneAndBuild e lb repoName containerName exists imagesRaw repoDir
                     (l @ [EMkdirTemp (containerName @ ''-*'') (Some repoDir)], st) of
                (l', st') \<Rightarrow> (l' @ [ERemoveAll repoDir (removeAll e l' repoDir)], st'))))"

definition listImages :: "env \<Rightarrow> lib \<Rightarrow> string \<Rightarrow> string \<Rightarrow> bool \<Rightarrow> world \<Rightarrow> world" where
  "listImages e lb repoName containerName exists w =
     (case w of (l, st) \<Rightarrow>
        (case imagesCmd e l repoName of
           ImagesOutput imagesRaw \<Rightarrow>
             inScratchDir e lb repoName containerName exists imagesRaw
               (l @ [EImages repoName (ImagesOutput imagesRaw)], st)
         | failed \<Rightarrow> (l @ [EImages repoName failed], st)))"

text \<open>
  The body of \<^verbatim>\<open>deployApplication\<close> between the registration of the deferred
  queue-or-unlock function and the return, the deferred removal of the scratch directory
  included.
\<close>

definition deployBody :: "env \<Rightarrow> lib \<Rightarrow> string \<Rightarrow> world \<Rightarrow> world" where
  "deployBody e lb repoName w =
     (let containerName = RepoNameToContainerName repoName in
      case CheckContainer e containerName w of
        (Inl err, w1) \<Rightarrow>
          if err = ErrorDoesNotExist then listImages e lb repoName containerName False w1
          else w1
      | (Inr _, w1) \<Rightarrow> listImages e lb repoName containerName True w1)"

text \<open>
  The deferred function: re-run when a job was queued, else free the mutex. Unlocking a
  mutex that is not locked is a fatal error of the Go runtime (\<open>None\<close>).
\<close>

definition Unlock :: "buildConfigT \<Rightarrow> buildConfigT option" where
  "Unlock conf = (if BuildingMutex conf then Some (conf\<lparr>BuildingMutex := False\<rparr>) else None)"

function deployApplication ::
  "env \<Rightarrow> lib \<Rightarrow> string \<Rightarrow> world \<times> buildConfig \<Rightarrow> (world \<times> buildConfig) option" where
  "deployApplication e lb repoName s =
     (case s of (w, bc) \<Rightarrow>
        (case bc repoName of
           None \<Rightarrow> Some (w, bc)
         | Some conf \<Rightarrow>
             (let w' = deployBody e lb repoName w in
              if Queued conf then
                deployApplication e lb repoName (w', bc(repoName \<mapsto> conf\<lparr>Queued := False\<rparr>))
              else
                (case Unlock conf of
                   None \<Rightarrow> None
                 | Some conf' \<Rightarrow> Some (w', bc(repoName \<mapsto> conf'))))))"
  by pat_completeness auto
termination
  by (relation "measure (\<lambda>(e, lb, repoName, (w, bc)).
        (case bc repoName of None \<Rightarrow> 0 | Some conf \<Rightarrow> if Queued conf then 1 else 0))") auto

section \<open>The build lock and the queued flag under interleaving\<close>

text \<open>
  The handler and the deploy run in different goroutines. Between the steps below the
  scheduler may switch: the handler's \<^verbatim>\<open>TryLock\<close>, the handler's later assignment
  \<^verbatim>\<open>conf.Queued = true\<close>, and the deferred function at the end of a deploy. \<open>waiting\<close>
  counts the handlers between a failed \<^verbatim>\<open>TryLock\<close> and their assignment, \<open>deploying\<close>
  the goroutines inside \<^verbatim>\<open>deployApplication\<close>, \<open>runs\<close> the deploy bodies started so far.
\<close>

record coordinator =
  config :: buildConfigT
  waiting :: nat
  deploying :: nat
  runs :: nat

datatype event = HandlerTryLock | HandlerSetQueued | DeployReturns

fun step :: "coordinator \<Rightarrow> event \<Rightarrow> coordinator" where
  "step c HandlerTryLock =
     (case TryLock (config c) of
        (False, conf') \<Rightarrow> c\<lparr>config := conf', waiting := waiting c + 1\<rparr>
      | (True, conf') \<Rightarrow> c\<lparr>config := conf', deploying := deploying c + 1, runs := runs c + 1\<rparr>)"
| "step c HandlerSetQueued =
     (if waiting c = 0 then c
      else c\<lparr>config := (config c)\<lparr>Queued := True\<rparr>, waiting := waiting c - 1\<rparr>)"
| "step c DeployReturns =
     (if deploying c = 0 then c
      else if Queued (config c) then c\<lparr>config := (config c)\<lparr>Queued := False\<rparr>, runs := runs c + 1\<rparr>
      else c\<lparr>config := (config c)\<lparr>BuildingMutex := False\<rparr>, deploying := deploying c - 1\<rparr>)"

definition idleCoordinator :: "string \<Rightarrow> coordinator" where
  "idleCoordinator secret =
     \<lparr>config = \<lparr>Secret = secret, BuildingMutex = False, Queued = False\<rparr>,
      waiting = 0, deploying = 0, runs = 0\<rparr>"

section \<open>Calls into package docker, as other goroutines may make them\<close>

datatype call =
    CallRegister string
  | CallUpdateUsed string
  | CallCheck string
  | CallEnsure string
  | CallStart string
  | CallStop string
  | CallPause string
  | CallUnpause string

fun perform :: "env \<Rightarrow> world \<Rightarrow> call \<Rightarrow> world" where
  "perform e w (CallRegister name) = (fst w, RegisterContainer name (snd w))"
| "perform e w (CallUpdateUsed name) = snd (UpdateUsed e name w)"
| "perform e w (CallCheck name) = snd (CheckContainer e name w)"
| "perform e w (CallEnsure name) = snd (EnsureContainerRunning e name w)"
| "perform e w (CallStart name) = snd (StartContainer e name w)"
| "perform e w (CallStop name) = snd (StopContainer e name w)"
| "perform e w (CallPause name) = snd (PauseContainer e name w)"
| "perform e w (CallUnpause name) = snd (UnpauseContainer e name w)"

section \<open>A concrete environment\<close>

text \<open>
  A runtime that accepts every command and reports a running container at 172.17.0.2 on
  its bridge network, a clock that starts in the year 2025 and advances one second per
  call, sub-processes that succeed.
\<close>

definition inspect0 :: ContainerStateJson where
  "inspect0 = \<lparr>State_Running = True, State_Paused = False, NetworkSettings_IPAddress = [],
     NetworkSettings_Networks = [(''bridge'', ''172.17.0.2'')]\<rparr>"

definition env0 :: env where
  "env0 = \<lparr>clock = (\<lambda>l. 63870000000000000000 + int (length l) * 1000000000),
     dockerPost = (\<lambda>l c a. PostStatus 204),
     dockerGet = (\<lambda>l n. GetStatus 200 (Some inspect0)),
     execCmd = (\<lambda>l n a. True),
     imagesCmd = (\<lambda>l r. ImagesOutput []),
     mkdirTemp = (\<lambda>l p. Some ''/tmp/bs-1''),
     removeAll = (\<lambda>l d. True)\<rparr>"

definition running0 :: ContainerState where
  "running0 = \<lparr>Running = True, Paused = False, LastUsed = None, IPAddress = ''172.17.0.2'',
     LastUpdate = None\<rparr>"

definition cache0 :: cache where
  "cache0 = [''bs-a'' \<mapsto> running0]"

definition paused0 :: ContainerState where
  "paused0 = running0\<lparr>Paused := True\<rparr>"

text \<open>
  An instance last used \<open>d\<close> nanoseconds before the second clock reading that \<open>env0\<close>
  gives on an empty transcript.
\<close>

definition usedAgo :: "ContainerState \<Rightarrow> Duration \<Rightarrow> ContainerState" where
  "usedAgo c d = c\<lparr>LastUsed := Some (63870000001000000000 - d)\<rparr>"

definition vars0 :: jobVars where
  "vars0 = \<lparr>toStop = [], toPause = [], nextRunner = time_Minute\<rparr>"

definition halfHourIdle :: cache where
  "halfHourIdle = [''bs-a'' \<mapsto> paused0\<lparr>LastUsed := Some 63869998201000000000\<rparr>]"

section \<open>The scheduler's delay, as the specification words it\<close>

definition spec_threshold :: "ContainerState \<Rightarrow> Duration" where
  "spec_threshold c = (if Paused c then STOP_DELAY else PAUSE_DELAY)"

text \<open>
  The next-delay contributions of one pass: threshold minus idle for every running
  instance whose idle time is below its threshold, in the order of the pass.
\<close>

fun spec_contributions :: "env \<Rightarrow> string list \<Rightarrow> cache \<Rightarrow> effect list \<Rightarrow> Duration list" where
  "spec_contributions e [] st l = []"
| "spec_contributions e (k # ks) st l =
     (case st k of
        None \<Rightarrow> spec_contributions e ks st l
      | Some c \<Rightarrow>
          (case timeSince e c l of
             (idle, l') \<Rightarrow>
               (if Running c \<and> idle < spec_threshold c
                then [durSub (spec_threshold c) idle] else [])
               @ spec_contributions e ks st l'))"

definition spec_nextDelay :: "Duration list \<Rightarrow> Duration" where
  "spec_nextDelay contributions =
     (if contributions = [] then time_Hour else Min (set contributions))"

section \<open>Concrete webhook deliveries\<close>

text \<open>\<^verbatim>\<open>strings.Join\<close> for a one-byte separator, the inverse of \<open>splitOn\<close>.\<close>

fun joinOn :: "char \<Rightarrow> string list \<Rightarrow> string" where
  "joinOn c [] = []"
| "joinOn c [w] = w"
| "joinOn c (w # ws) = w @ c # joinOn c ws"

text \<open>
  The decoders and the keyed hash are fixed arbitrarily: the payload names stand for the
  JSON texts, every key and payload hashes to the three bytes \<open>mac\<close>, whose hex form is
  \<open>6d6163\<close>; \<open>00\<close> is the hex form of one zero byte.
\<close>

definition push0 :: "bool \<Rightarrow> string \<Rightarrow> pushRequest" where
  "push0 private ref =
     \<lparr>Ref = ref,
      Repository = \<lparr>Private = private, FullName = ''owner/a'', DefaultBranch = ''main''\<rparr>\<rparr>"

definition lib0 :: lib where
  "lib0 = \<lparr>unmarshalPush = (\<lambda>s.
       if s = ''push-main'' then Some (push0 False ''refs/heads/main'')
       else if s = ''push-dev'' then Some (push0 False ''refs/heads/dev'')
       else if s = ''push-tag'' then Some (push0 False ''refs/tags/v1'')
       else if s = ''push-odd'' then Some (push0 False ''main'')
       else if s = ''private-push-tag'' then Some (push0 True ''refs/tags/v1'')
       else None),
     unmarshalImage = (\<lambda>s. if s = [] then None else Some s),
     hmacSum = (\<lambda>alg key payload. ''mac''),
     hexDecodeString = (\<lambda>s. if s = ''6d6163'' then Inr ''mac''
       else if s = ''00'' then Inr [CHR 0x00]
       else Inl ''encoding/hex: invalid byte'')\<rparr>"

definition delivery :: "string \<Rightarrow> string \<Rightarrow> string \<Rightarrow> request" where
  "delivery event sig payload =
     \<lparr>hEvent = event, hSignature = [], hSignature256 = sig,
      hContentType = ''application/json'', hUserAgent = ''GitHub-Hookshot/abc'',
      rBody = Some payload\<rparr>"

definition config0 :: buildConfig where
  "config0 = RegisterSecret ''owner/a'' ''s3cret'' Map.empty"

section \<open>Reading a transcript\<close>

text \<open>The image identifiers for which \<^verbatim>\<open>docker rmi\<close> was run, in order.\<close>

fun rmiTargets :: "effect list \<Rightarrow> string list" where
  "rmiTargets [] = []"
| "rmiTargets (EExec name args ok # es) =
     (if name = ''docker'' \<and> length args = 2 \<and> args ! 0 = ''rmi''
      then args ! 1 # rmiTargets es else rmiTargets es)"
| "rmiTargets (x # es) = rmiTargets es"

text \<open>A \<^verbatim>\<open>git clone\<close> or a \<^verbatim>\<open>docker build\<close> that ended in an error.\<close>

fun buildStepFailed :: "effect \<Rightarrow> bool" where
  "buildStepFailed (EExec name args ok) =
     (\<not> ok \<and> ((name = ''git'' \<and> take 1 args = [''clone'']) \<or>
              (name = ''docker'' \<and> take 1 args = [''build''])))"
| "buildStepFailed x = False"

text \<open>
  A command to the runtime that stops, pauses, starts, removes or creates a container, or
  removes an image.
\<close>

fun touchesContainer :: "effect \<Rightarrow> bool" where
  "touchesContainer (EPost container action reply) = True"
| "touchesContainer (EExec name args ok) =
     (name = ''docker'' \<and>
      (take 1 args = [''rm''] \<or> take 1 args = [''run''] \<or> take 1 args = [''rmi'']))"
| "touchesContainer x = False"

definition grows :: "(effect \<Rightarrow> bool) \<Rightarrow> effect list \<Rightarrow> effect list \<Rightarrow> bool" where
  "grows P l l' = (\<exists>xs. l' = l @ xs \<and> (\<forall>x \<in> set xs. P x))"


text \<open>
  An environment in which \<^verbatim>\<open>git clone\<close> fails, one in which \<^verbatim>\<open>docker build\<close>
  fails, and a cache in which the container of \<open>owner/a\<close> is registered and was never
  inspected.
\<close>

definition envCloneFails :: env where
  "envCloneFails = env0\<lparr>execCmd := (\<lambda>l name args. name \<noteq> ''git'')\<rparr>"

definition envBuildFails :: env where
  "envBuildFails = env0\<lparr>execCmd := (\<lambda>l name args. take 1 args \<noteq> [''build''])\<rparr>"

definition cacheA :: cache where
  "cacheA = RegisterContainer ''bs-owner-a'' Map.empty"

section \<open>Schedules of the build coordinator\<close>

definition coherent :: "coordinator \<Rightarrow> bool" where
  "coherent c = (deploying c \<le> 1 \<and> (BuildingMutex (config c) \<longleftrightarrow> deploying c = 1))"

text \<open>
  \<open>n\<close> webhook requests, each running from its \<^verbatim>\<open>TryLock\<close> to its assignment of the
  queued flag with nothing in between.
\<close>

definition undisturbedRequests :: "nat \<Rightarrow> event list" where
  "undisturbedRequests n = concat (replicate n [HandlerTryLock, HandlerSetQueued])"

text \<open>
  The schedule on which the queued rebuild is lost: a first request starts the deploy, a
  second request fails its \<^verbatim>\<open>TryLock\<close>, the deploy returns and frees the mutex, and only
  then the second request sets the queued flag.
\<close>

definition lostRebuild :: "event list" where
  "lostRebuild = [HandlerTryLock, HandlerTryLock, DeployReturns, HandlerSetQueued]"


text \<open>
  A runtime that accepts every command and answers every inspect with status 500, and a
  cache in which the registered container is not running.
\<close>

definition envInspectFails :: env where
  "envInspectFails = env0\<lparr>dockerGet := (\<lambda>l n. GetStatus 500 None)\<rparr>"

definition cacheStopped :: cache where
  "cacheStopped = [''bs-a'' \<mapsto> running0\<lparr>Running := False\<rparr>]"

section \<open>The scheduler's classification, as the specification words it\<close>

datatype verdict = Keep Duration | PauseDue | StopDue | Ignored

text \<open>
  The rule for one instance at clock reading \<open>now\<close>: idle is \<open>now\<close> minus the last use, and
  infinite when the instance was never used.
\<close>

definition spec_verdict :: "Time \<Rightarrow> ContainerState \<Rightarrow> verdict" where
  "spec_verdict now c =
     (if \<not> Running c then Ignored
      else
        (case LastUsed c of
           None \<Rightarrow> (if Paused c then StopDue else PauseDue)
         | Some u \<Rightarrow>
             if \<not> Paused c then
               (if now - u < time_Minute then Keep (time_Minute - (now - u)) else PauseDue)
             else
               (if now - u < time_Hour then Keep (time_Hour - (now - u)) else StopDue)))"

text \<open>
  The verdicts of one pass over the cache, in the order of the pass; each instance is
  judged at the clock reading of its own visit.
\<close>

fun spec_verdicts ::
  "env \<Rightarrow> string list \<Rightarrow> cache \<Rightarrow> effect list \<Rightarrow> (string \<times> verdict) list" where
  "spec_verdicts e [] st l = []"
| "spec_verdicts e (k # ks) st l =
     (case st k of
        None \<Rightarrow> spec_verdicts e ks st l
      | Some c \<Rightarrow>
          (k, spec_verdict (clock e (l @ [ENow (clock e l)])) c)
            # spec_verdicts e ks st (snd (timeSince e c l)))"

fun keptDelays :: "(string \<times> verdict) list \<Rightarrow> Duration list" where
  "keptDelays [] = []"
| "keptDelays ((k, Keep d) # vs) = d # keptDelays vs"
| "keptDelays (kv # vs) = keptDelays vs"

definition dueNames :: "verdict \<Rightarrow> (string \<times> verdict) list \<Rightarrow> string list" where
  "dueNames v vs = map fst (filter (\<lambda>kv. snd kv = v) vs)"

text \<open>The containers to which a command was posted, in order.\<close>

fun posts :: "string \<Rightarrow> effect list \<Rightarrow> string list" where
  "posts action [] = []"
| "posts action (EPost name a reply # es) =
     (if a = action then name # posts action es else posts action es)"
| "posts action (x # es) = posts action es"

text \<open>
  A clock that stands still at the reading of \<open>usedAgo\<close>, and a cache with one instance
  of every kind.
\<close>

definition envSteady :: env where
  "envSteady = env0\<lparr>clock := (\<lambda>l. 63870000001000000000)\<rparr>"

definition fleet :: cache where
  "fleet = [''bs-a'' \<mapsto> usedAgo running0 30000000000,
            ''bs-b'' \<mapsto> usedAgo running0 90000000000,
            ''bs-c'' \<mapsto> usedAgo paused0 1800000000000,
            ''bs-d'' \<mapsto> usedAgo paused0 7200000000000,
            ''bs-e'' \<mapsto> usedAgo (running0\<lparr>Running := False\<rparr>) 7200000000000,
            ''bs-f'' \<mapsto> running0]"


section \<open>Runtime writes and the cache\<close>

lemma IsRegistered_iff: "IsRegistered name st \<longleftrightarrow> name \<in> dom st"
  by (auto simp: IsRegistered_def split: option.splits)

lemma dockerExecCmd_log:
  "dockerExecCmd e name action l = (r, l') \<Longrightarrow>
     l' = l @ [EPost name action (dockerPost e l name action)]"
  by (auto simp: dockerExecCmd_def)

lemma updateRunning_ok:
  "st name = Some c \<Longrightarrow>
     updateRunning e name running paused (l, st) =
       (None, (l @ [ENow (clock e l)],
          st(name \<mapsto> c\<lparr>Running := running, Paused := paused, LastUpdate := Some (clock e l)\<rparr>)))"
  by (simp add: updateRunning_def timeNow_def)

lemma updatePaused_ok:
  "st name = Some c \<Longrightarrow>
     updatePaused e name paused (l, st) =
       (None, (l @ [ENow (clock e l)],
          st(name \<mapsto> c\<lparr>Paused := paused, LastUpdate := Some (clock e l)\<rparr>)))"
  by (simp add: updatePaused_def timeNow_def)

lemma updateState_ok:
  "st name = Some c \<Longrightarrow>
     updateState e name running paused ip (l, st) =
       (None, (l @ [ENow (clock e l)],
          st(name \<mapsto> c\<lparr>Running := running, Paused := paused, IPAddress := ip,
            LastUpdate := Some (clock e l)\<rparr>)))"
  by (simp add: updateState_def timeNow_def)

lemma StopContainer_ok:
  assumes "st name = Some c" and "StopContainer e name (l, st) = (None, (l', st'))"
  shows "l' = l @ [EPost name ''stop'' (dockerPost e l name ''stop''),
                   ENow (clock e (l @ [EPost name ''stop'' (dockerPost e l name ''stop'')]))]
         \<and> st' = st(name \<mapsto> c\<lparr>Running := False, Paused := False,
              LastUpdate := Some (clock e (l @ [EPost name ''stop'' (dockerPost e l name ''stop'')]))\<rparr>)"
proof -
  obtain r l1 where ex: "dockerExecCmd e name ''stop'' l = (r, l1)"
    by (cases "dockerExecCmd e name ''stop'' l")
  from assms ex have "r = None"
    by (auto simp: StopContainer_def IsRegistered_def split: option.splits)
  with assms ex dockerExecCmd_log [OF ex] show ?thesis
    by (simp add: StopContainer_def IsRegistered_def updateRunning_ok)
qed

lemma PauseContainer_ok:
  assumes "st name = Some c" and "PauseContainer e name (l, st) = (None, (l', st'))"
  shows "l' = l @ [EPost name ''pause'' (dockerPost e l name ''pause''),
                   ENow (clock e (l @ [EPost name ''pause'' (dockerPost e l name ''pause'')]))]
         \<and> st' = st(name \<mapsto> c\<lparr>Paused := True,
              LastUpdate := Some (clock e (l @ [EPost name ''pause'' (dockerPost e l name ''pause'')]))\<rparr>)"
proof -
  obtain r l1 where ex: "dockerExecCmd e name ''pause'' l = (r, l1)"
    by (cases "dockerExecCmd e name ''pause'' l")
  from assms ex have "r = None"
    by (auto simp: PauseContainer_def IsRegistered_def split: option.splits)
  with assms ex dockerExecCmd_log [OF ex] show ?thesis
    by (simp add: PauseContainer_def IsRegistered_def updatePaused_ok)
qed

lemma UnpauseContainer_ok:
  assumes "st name = Some c" and "UnpauseContainer e name (l, st) = (None, (l', st'))"
  shows "l' = l @ [EPost name ''unpause'' (dockerPost e l name ''unpause''),
                   ENow (clock e (l @ [EPost name ''unpause'' (dockerPost e l name ''unpause'')]))]
         \<and> st' = st(name \<mapsto> c\<lparr>Paused := False,
              LastUpdate := Some (clock e (l @ [EPost name ''unpause'' (dockerPost e l name ''unpause'')]))\<rparr>)"
proof -
  obtain r l1 where ex: "dockerExecCmd e name ''unpause'' l = (r, l1)"
    by (cases "dockerExecCmd e name ''unpause'' l")
  from assms ex have "r = None"
    by (auto simp: UnpauseContainer_def IsRegistered_def split: option.splits)
  with assms ex dockerExecCmd_log [OF ex] show ?thesis
    by (simp add: UnpauseContainer_def IsRegistered_def updatePaused_ok)
qed

lemma dockerExecJson_Inr:
  "dockerExecJson e name l = (Inr result, l') \<Longrightarrow>
     dockerGet e l name = GetStatus 200 (Some result) \<and>
     l' = l @ [EGet name (GetStatus 200 (Some result))]"
  by (auto simp: dockerExecJson_def split: getReply.splits if_splits option.splits)

lemma CheckContainer_ok:
  assumes "st name = Some c" and "CheckContainer e name (l, st) = (Inr b, (l', st'))"
  shows "\<exists>result. dockerGet e l name = GetStatus 200 (Some result) \<and>
           l' = l @ [EGet name (GetStatus 200 (Some result)),
                     ENow (clock e (l @ [EGet name (GetStatus 200 (Some result))]))] \<and>
           st' = st(name \<mapsto> c\<lparr>Running := State_Running result, Paused := State_Paused result,
             IPAddress := inspectAddress result,
             LastUpdate := Some (clock e (l @ [EGet name (GetStatus 200 (Some result))]))\<rparr>)"
proof -
  obtain r l1 where ex: "dockerExecJson e name l = (r, l1)"
    by (cases "dockerExecJson e name l")
  from assms ex obtain result where r: "r = Inr result"
    by (cases r) (auto simp: CheckContainer_def IsRegistered_def)
  from dockerExecJson_Inr [OF ex [unfolded r]] assms ex r show ?thesis
    by (auto simp: CheckContainer_def IsRegistered_def updateState_ok)
qed

lemma StartContainer_ok:
  assumes "st name = Some c" and "StartContainer e name (l, st) = (None, (l', st'))"
  shows "\<exists>result. dockerGet e (l @ [EPost name ''start'' (dockerPost e l name ''start'')]) name
              = GetStatus 200 (Some result) \<and>
           l' = l @ [EPost name ''start'' (dockerPost e l name ''start''),
                     EGet name (GetStatus 200 (Some result)),
                     ENow (clock e (l @ [EPost name ''start'' (dockerPost e l name ''start''),
                                         EGet name (GetStatus 200 (Some result))]))] \<and>
           st' = st(name \<mapsto> c\<lparr>Running := State_Running result, Paused := State_Paused result,
             IPAddress := inspectAddress result,
             LastUpdate := Some (clock e (l @ [EPost name ''start'' (dockerPost e l name ''start''),
                                               EGet name (GetStatus 200 (Some result))]))\<rparr>)"
proof -
  obtain r l1 where ex: "dockerExecCmd e name ''start'' l = (r, l1)"
    by (cases "dockerExecCmd e name ''start'' l")
  from assms ex have r: "r = None"
    by (auto simp: StartContainer_def IsRegistered_def split: option.splits)
  note l1 = dockerExecCmd_log [OF ex]
  obtain q w' where ck: "CheckContainer e name (l1, st) = (q, w')"
    by (cases "CheckContainer e name (l1, st)")
  from assms ex r ck obtain b where q: "q = Inr b" and w': "w' = (l', st')"
    by (cases q) (auto simp: StartContainer_def IsRegistered_def)
  from CheckContainer_ok [OF assms(1) ck [unfolded q w']] l1 show ?thesis
    by auto
qed

lemmas run_defs =
  StopContainer_def PauseContainer_def UnpauseContainer_def StartContainer_def
  CheckContainer_def EnsureContainerRunning_def IsStale_def GetState_def
  IsRegistered_def dockerExecCmd_def dockerExecJson_def inspectAddress_def
  updateState_def updateRunning_def updatePaused_def timeNow_def

lemmas env0_defs = env0_def inspect0_def running0_def paused0_def cache0_def


lemma dockerExecCmd_snd:
  "snd (dockerExecCmd e name action l) = l @ [EPost name action (dockerPost e l name action)]"
  by (simp add: dockerExecCmd_def)

lemma StopContainer_accepted:
  assumes "st name = Some c" and "fst (dockerExecCmd e name ''stop'' l) = None"
  shows "StopContainer e name (l, st) =
     (None, (l @ [EPost name ''stop'' (dockerPost e l name ''stop''),
                  ENow (clock e (l @ [EPost name ''stop'' (dockerPost e l name ''stop'')]))],
       st(name \<mapsto> c\<lparr>Running := False, Paused := False,
         LastUpdate := Some (clock e (l @ [EPost name ''stop'' (dockerPost e l name ''stop'')]))\<rparr>)))"
  using assms dockerExecCmd_snd [of e name "''stop''" l]
  by (cases "dockerExecCmd e name ''stop'' l")
    (simp add: StopContainer_def IsRegistered_def updateRunning_ok)

lemma PauseContainer_accepted:
  assumes "st name = Some c" and "fst (dockerExecCmd e name ''pause'' l) = None"
  shows "PauseContainer e name (l, st) =
     (None, (l @ [EPost name ''pause'' (dockerPost e l name ''pause''),
                  ENow (clock e (l @ [EPost name ''pause'' (dockerPost e l name ''pause'')]))],
       st(name \<mapsto> c\<lparr>Paused := True,
         LastUpdate := Some (clock e (l @ [EPost name ''pause'' (dockerPost e l name ''pause'')]))\<rparr>)))"
  using assms dockerExecCmd_snd [of e name "''pause''" l]
  by (cases "dockerExecCmd e name ''pause'' l")
    (simp add: PauseContainer_def IsRegistered_def updatePaused_ok)

lemma UnpauseContainer_accepted:
  assumes "st name = Some c" and "fst (dockerExecCmd e name ''unpause'' l) = None"
  shows "UnpauseContainer e name (l, st) =
     (None, (l @ [EPost name ''unpause'' (dockerPost e l name ''unpause''),
                  ENow (clock e (l @ [EPost name ''unpause'' (dockerPost e l name ''unpause'')]))],
       st(name \<mapsto> c\<lparr>Paused := False,
         LastUpdate := Some (clock e (l @ [EPost name ''unpause'' (dockerPost e l name ''unpause'')]))\<rparr>)))"
  using assms dockerExecCmd_snd [of e name "''unpause''" l]
  by (cases "dockerExecCmd e name ''unpause'' l")
    (simp add: UnpauseContainer_def IsRegistered_def updatePaused_ok)

lemma StartContainer_accepted:
  assumes "st name = Some c" and "fst (dockerExecCmd e name ''start'' l) = None"
  shows "StartContainer e name (l, st) =
     (case CheckContainer e name (l @ [EPost name ''start'' (dockerPost e l name ''start'')], st) of
        (Inl err, w') \<Rightarrow> (Some err, w')
      | (Inr b, w') \<Rightarrow> (None, w'))"
  using assms dockerExecCmd_snd [of e name "''start''" l]
  by (cases "dockerExecCmd e name ''start'' l")
    (simp add: StartContainer_def IsRegistered_def)

lemma CheckContainer_inspected:
  assumes "st name = Some c" and "dockerGet e l name = GetStatus 200 (Some result)"
  shows "CheckContainer e name (l, st) =
     (Inr (State_Running result \<and> \<not> State_Paused result),
      (l @ [EGet name (GetStatus 200 (Some result)),
            ENow (clock e (l @ [EGet name (GetStatus 200 (Some result))]))],
       st(name \<mapsto> c\<lparr>Running := State_Running result, Paused := State_Paused result,
         IPAddress := inspectAddress result,
         LastUpdate := Some (clock e (l @ [EGet name (GetStatus 200 (Some result))]))\<rparr>)))"
  using assms
  by (simp add: CheckContainer_def IsRegistered_def dockerExecJson_def updateState_ok)

lemma CheckContainer_not_inspected:
  assumes "st name = Some c" and "\<forall>result. dockerGet e l name \<noteq> GetStatus 200 (Some result)"
  shows "\<exists>err. CheckContainer e name (l, st) =
     (Inl err, (l @ [EGet name (dockerGet e l name)], st))"
proof (cases "dockerGet e l name")
  case (GetFailed msg)
  with assms(1) show ?thesis
    by (simp add: CheckContainer_def IsRegistered_def dockerExecJson_def)
next
  case (GetStatus code reply)
  with assms show ?thesis
    by (cases reply) (auto simp: CheckContainer_def IsRegistered_def dockerExecJson_def)
qed

text \<open>
  C7, as the code has it. For a registered instance: a stop, pause or unpause command that
  the runtime accepts always returns without error and has written the cache (stop:
  running and paused false; pause: paused true; unpause: paused false; each with a new
  refresh time and with the command as the only call to the runtime). A start command
  that the runtime accepts is always followed by an inspect; when the inspect answers,
  its flags and address are stored with a new refresh time and start returns without
  error; when it does not, start returns the error and the cache is left as it was.
\<close>

theorem writes_and_cache:
  assumes "st name = Some c"
  shows
    "(fst (dockerExecCmd e name ''stop'' l) = None \<longrightarrow>
        StopContainer e name (l, st) =
          (None, (l @ [EPost name ''stop'' (dockerPost e l name ''stop''),
                       ENow (clock e (l @ [EPost name ''stop'' (dockerPost e l name ''stop'')]))],
            st(name \<mapsto> c\<lparr>Running := False, Paused := False,
              LastUpdate := Some (clock e (l @ [EPost name ''stop'' (dockerPost e l name ''stop'')]))\<rparr>)))) \<and>
     (fst (dockerExecCmd e name ''pause'' l) = None \<longrightarrow>
        PauseContainer e name (l, st) =
          (None, (l @ [EPost name ''pause'' (dockerPost e l name ''pause''),
                       ENow (clock e (l @ [EPost name ''pause'' (dockerPost e l name ''pause'')]))],
            st(name \<mapsto> c\<lparr>Paused := True,
              LastUpdate := Some (clock e (l @ [EPost name ''pause'' (dockerPost e l name ''pause'')]))\<rparr>)))) \<and>
     (fst (dockerExecCmd e name ''unpause'' l) = None \<longrightarrow>
        UnpauseContainer e name (l, st) =
          (None, (l @ [EPost name ''unpause'' (dockerPost e l name ''unpause''),
                       ENow (clock e (l @ [EPost name ''unpause'' (dockerPost e l name ''unpause'')]))],
            st(name \<mapsto> c\<lparr>Paused := False,
              LastUpdate := Some (clock e (l @ [EPost name ''unpause'' (dockerPost e l name ''unpause'')]))\<rparr>)))) \<and>
     (fst (dockerExecCmd e name ''start'' l) = None \<longrightarrow>
        (\<forall>result.
           dockerGet e (l @ [EPost name ''start'' (dockerPost e l name ''start'')]) name
             = GetStatus 200 (Some result) \<longrightarrow>
           StartContainer e name (l, st) =
             (None, (l @ [EPost name ''start'' (dockerPost e l name ''start''),
                          EGet name (GetStatus 200 (Some result)),
                          ENow (clock e (l @ [EPost name ''start'' (dockerPost e l name ''start''),
                                              EGet name (GetStatus 200 (Some result))]))],
               st(name \<mapsto> c\<lparr>Running := State_Running result, Paused := State_Paused result,
                 IPAddress := inspectAddress result,
                 LastUpdate := Some (clock e (l @ [EPost name ''start'' (dockerPost e l name ''start''),
                                                   EGet name (GetStatus 200 (Some result))]))\<rparr>)))) \<and>
        ((\<forall>result.
            dockerGet e (l @ [EPost name ''start'' (dockerPost e l name ''start'')]) name
              \<noteq> GetStatus 200 (Some result)) \<longrightarrow>
           fst (StartContainer e name (l, st)) \<noteq> None \<and>
           snd (StartContainer e name (l, st)) =
             (l @ [EPost name ''start'' (dockerPost e l name ''start''),
                   EGet name (dockerGet e (l @ [EPost name ''start'' (dockerPost e l name ''start'')]) name)],
              st)))"
proof -
  let ?l1 = "l @ [EPost name ''start'' (dockerPost e l name ''start'')]"
  have ok: "StartContainer e name (l, st) =
      (None, (?l1 @ [EGet name (GetStatus 200 (Some result)),
                     ENow (clock e (?l1 @ [EGet name (GetStatus 200 (Some result))]))],
        st(name \<mapsto> c\<lparr>Running := State_Running result, Paused := State_Paused result,
          IPAddress := inspectAddress result,
          LastUpdate := Some (clock e (?l1 @ [EGet name (GetStatus 200 (Some result))]))\<rparr>)))"
    if "fst (dockerExecCmd e name ''start'' l) = None"
      and "dockerGet e ?l1 name = GetStatus 200 (Some result)" for result
    using StartContainer_accepted [of st name c e l]
      CheckContainer_inspected [of st name c e ?l1 result] assms that
    by simp
  have bad: "fst (StartContainer e name (l, st)) \<noteq> None \<and>
      snd (StartContainer e name (l, st)) = (?l1 @ [EGet name (dockerGet e ?l1 name)], st)"
    if "fst (dockerExecCmd e name ''start'' l) = None"
      and "\<forall>result. dockerGet e ?l1 name \<noteq> GetStatus 200 (Some result)"
    using StartContainer_accepted [of st name c e l]
      CheckContainer_not_inspected [of st name c e ?l1] assms that
    by auto
  from assms StopContainer_accepted [of st name c e l] PauseContainer_accepted [of st name c e l]
    UnpauseContainer_accepted [of st name c e l] ok bad
  show ?thesis
    by (intro conjI impI allI) simp_all
qed

theorem writes_and_cache_witness:
  "fst (dockerExecCmd env0 ''bs-a'' ''stop'' []) = None \<and>
   StopContainer env0 ''bs-a'' ([], cache0) =
     (None, ([EPost ''bs-a'' ''stop'' (PostStatus 204), ENow 63870000001000000000],
       [''bs-a'' \<mapsto> running0\<lparr>Running := False, Paused := False,
          LastUpdate := Some 63870000001000000000\<rparr>])) \<and>
   PauseContainer env0 ''bs-a'' ([], cache0) =
     (None, ([EPost ''bs-a'' ''pause'' (PostStatus 204), ENow 63870000001000000000],
       [''bs-a'' \<mapsto> running0\<lparr>Paused := True, LastUpdate := Some 63870000001000000000\<rparr>])) \<and>
   UnpauseContainer env0 ''bs-a'' ([], cache0) =
     (None, ([EPost ''bs-a'' ''unpause'' (PostStatus 204), ENow 63870000001000000000],
       [''bs-a'' \<mapsto> running0\<lparr>Paused := False, LastUpdate := Some 63870000001000000000\<rparr>])) \<and>
   StartContainer env0 ''bs-a'' ([], cacheStopped) =
     (None, ([EPost ''bs-a'' ''start'' (PostStatus 204),
              EGet ''bs-a'' (GetStatus 200 (Some inspect0)), ENow 63870000002000000000],
       [''bs-a'' \<mapsto> running0\<lparr>Running := True, Paused := False,
          IPAddress := ''172.17.0.2'', LastUpdate := Some 63870000002000000000\<rparr>])) \<and>
   fst (StartContainer envInspectFails ''bs-a'' ([], cacheStopped)) \<noteq> None \<and>
   snd (StartContainer envInspectFails ''bs-a'' ([], cacheStopped)) =
     ([EPost ''bs-a'' ''start'' (PostStatus 204), EGet ''bs-a'' (GetStatus 500 None)],
      cacheStopped)"
proof -
  have p: "cache0 ''bs-a'' = Some running0"
    "cacheStopped ''bs-a'' = Some (running0\<lparr>Running := False\<rparr>)"
    by (simp_all add: cache0_def cacheStopped_def)
  have a: "fst (dockerExecCmd env0 ''bs-a'' action l) = None"
    "fst (dockerExecCmd envInspectFails ''bs-a'' action l) = None" for action l
    by (simp_all add: dockerExecCmd_def env0_def envInspectFails_def)
  have g: "dockerPost env0 l n x = PostStatus 204" "dockerGet env0 l n = GetStatus 200 (Some inspect0)"
    "dockerPost envInspectFails l n x = PostStatus 204"
    "dockerGet envInspectFails l n = GetStatus 500 None"
    "clock env0 l = 63870000000000000000 + int (length l) * 1000000000" for l n x
    by (simp_all add: env0_def envInspectFails_def)
  from p a
    writes_and_cache [of cache0 "''bs-a''" running0 env0 "[]"]
    writes_and_cache [of cacheStopped "''bs-a''" "running0\<lparr>Running := False\<rparr>" env0 "[]"]
    writes_and_cache [of cacheStopped "''bs-a''" "running0\<lparr>Running := False\<rparr>"
      envInspectFails "[]"]
  show ?thesis
    by (simp add: g cache0_def cacheStopped_def inspect0_def inspectAddress_def running0_def)
qed

text \<open>
  As the specification words it the property fails for start: the runtime accepts the
  start command, the inspect that follows is answered with status 500, and the cache
  still holds the entry of a container that is not running.
\<close>

theorem start_without_cache_update_counterexample:
  "cacheStopped ''bs-a'' = Some (running0\<lparr>Running := False\<rparr>) \<and>
   fst (dockerExecCmd envInspectFails ''bs-a'' ''start'' []) = None \<and>
   StartContainer envInspectFails ''bs-a'' ([], cacheStopped) =
     (Some (StatusError 500),
      ([EPost ''bs-a'' ''start'' (PostStatus 204), EGet ''bs-a'' (GetStatus 500 None)],
       cacheStopped))"
  by (simp add: run_defs envInspectFails_def env0_def cacheStopped_def)

section \<open>Registrations are permanent\<close>

lemma updateState_dom: "dom (snd (snd (updateState e name r p ip w))) = dom (snd w)"
  by (cases w) (auto simp: updateState_def timeNow_def split: option.splits)

lemma updateRunning_dom: "dom (snd (snd (updateRunning e name r p w))) = dom (snd w)"
  by (cases w) (auto simp: updateRunning_def timeNow_def split: option.splits)

lemma updatePaused_dom: "dom (snd (snd (updatePaused e name p w))) = dom (snd w)"
  by (cases w) (auto simp: updatePaused_def timeNow_def split: option.splits)

lemma UpdateUsed_dom: "dom (snd (snd (UpdateUsed e name w))) = dom (snd w)"
  by (cases w) (auto simp: UpdateUsed_def timeNow_def split: option.splits)

lemma RegisterContainer_dom: "dom (RegisterContainer name st) = insert name (dom st)"
  by (auto simp: RegisterContainer_def IsRegistered_iff)

lemma CheckContainer_dom: "dom (snd (snd (CheckContainer e name w))) = dom (snd w)"
proof (cases w)
  case (Pair l st)
  obtain r l1 where ex: "dockerExecJson e name l = (r, l1)"
    by (cases "dockerExecJson e name l")
  show ?thesis
  proof (cases r)
    case (Inl err)
    with Pair ex show ?thesis by (simp add: CheckContainer_def)
  next
    case (Inr result)
    obtain x w' where up: "updateState e name (State_Running result) (State_Paused result)
        (inspectAddress result) (l1, st) = (x, w')"
      by (cases "updateState e name (State_Running result) (State_Paused result)
        (inspectAddress result) (l1, st)")
    from updateState_dom [of e name "State_Running result" "State_Paused result"
        "inspectAddress result" "(l1, st)"] up
    have "dom (snd w') = dom st" by simp
    with Pair ex Inr up show ?thesis
      by (cases x) (simp_all add: CheckContainer_def)
  qed
qed

lemma StopContainer_dom: "dom (snd (snd (StopContainer e name w))) = dom (snd w)"
proof (cases w)
  case (Pair l st)
  obtain r l1 where ex: "dockerExecCmd e name ''stop'' l = (r, l1)"
    by (cases "dockerExecCmd e name ''stop'' l")
  with Pair updateRunning_dom [of e name False False "(l1, st)"] show ?thesis
    by (cases r) (simp_all add: StopContainer_def)
qed

lemma PauseContainer_dom: "dom (snd (snd (PauseContainer e name w))) = dom (snd w)"
proof (cases w)
  case (Pair l st)
  obtain r l1 where ex: "dockerExecCmd e name ''pause'' l = (r, l1)"
    by (cases "dockerExecCmd e name ''pause'' l")
  with Pair updatePaused_dom [of e name True "(l1, st)"] show ?thesis
    by (cases r) (simp_all add: PauseContainer_def)
qed

lemma UnpauseContainer_dom: "dom (snd (snd (UnpauseContainer e name w))) = dom (snd w)"
proof (cases w)
  case (Pair l st)
  obtain r l1 where ex: "dockerExecCmd e name ''unpause'' l = (r, l1)"
    by (cases "dockerExecCmd e name ''unpause'' l")
  with Pair updatePaused_dom [of e name False "(l1, st)"] show ?thesis
    by (cases r) (simp_all add: UnpauseContainer_def)
qed

lemma StartContainer_dom: "dom (snd (snd (StartContainer e name w))) = dom (snd w)"
proof (cases w)
  case (Pair l st)
  obtain r l1 where ex: "dockerExecCmd e name ''start'' l = (r, l1)"
    by (cases "dockerExecCmd e name ''start'' l")
  obtain q w' where ck: "CheckContainer e name (l1, st) = (q, w')"
    by (cases "CheckContainer e name (l1, st)")
  with CheckContainer_dom [of e name "(l1, st)"] have "dom (snd w') = dom st" by simp
  with Pair ex ck show ?thesis
    by (cases r; cases q) (simp_all add: StartContainer_def)
qed

lemma EnsureContainerRunning_dom:
  "dom (snd (snd (EnsureContainerRunning e name w))) = dom (snd w)"
proof -
  obtain stale l1 where s: "IsStale e name w = (stale, l1)"
    by (cases "IsStale e name w")
  obtain q w' where ck: "(if stale then CheckContainer e name (l1, snd w)
      else (Inr False, (l1, snd w))) = (q, w')"
    by (cases "if stale then CheckContainer e name (l1, snd w) else (Inr False, (l1, snd w))")
  have d: "dom (snd w') = dom (snd w)"
    using ck CheckContainer_dom [of e name "(l1, snd w)"] by (auto split: if_splits)
  show ?thesis
  proof (cases q)
    case (Inl err)
    with s ck d show ?thesis by (simp add: EnsureContainerRunning_def)
  next
    case (Inr b)
    with s ck d UnpauseContainer_dom [of e name w'] StartContainer_dom [of e name w']
    show ?thesis
      by (auto simp: EnsureContainerRunning_def split: prod.splits option.splits)
  qed
qed

lemma perform_dom: "dom (snd w) \<subseteq> dom (snd (perform e w c))"
  by (cases c)
    (auto simp: RegisterContainer_dom UpdateUsed_dom CheckContainer_dom
      EnsureContainerRunning_dom StartContainer_dom StopContainer_dom
      PauseContainer_dom UnpauseContainer_dom)

lemma performs_dom: "dom (snd w) \<subseteq> dom (snd (foldl (perform e) w cs))"
proof (induction cs arbitrary: w)
  case Nil
  show ?case by simp
next
  case (Cons c cs)
  from perform_dom [of w e c] Cons [of "perform e w c"] show ?case
    by auto
qed

lemma EnsureContainerRunning_registered:
  assumes "EnsureContainerRunning e name w = (None, w')"
  shows "name \<in> dom (snd w')"
proof -
  obtain stale l1 where s: "IsStale e name w = (stale, l1)"
    by (cases "IsStale e name w")
  obtain q w1 where ck: "(if stale then CheckContainer e name (l1, snd w)
      else (Inr False, (l1, snd w))) = (q, w1)"
    by (cases "if stale then CheckContainer e name (l1, snd w) else (Inr False, (l1, snd w))")
  from assms s ck obtain b where q: "q = Inr b"
    by (cases q) (auto simp: EnsureContainerRunning_def)
  from assms s ck q have "name \<in> dom (snd w1)"
    by (auto simp: EnsureContainerRunning_def GetState_def split: option.splits if_splits)
  moreover have "dom (snd w') = dom (snd w)"
    using EnsureContainerRunning_dom [of e name w] assms by simp
  moreover have "dom (snd w1) = dom (snd w)"
    using ck CheckContainer_dom [of e name "(l1, snd w)"] by (auto split: if_splits)
  ultimately show ?thesis by simp
qed

text \<open>
  C10. When \<^verbatim>\<open>EnsureContainerRunning(name)\<close> returns without error the name is
  registered, no call into the package removes a registration, so \<^verbatim>\<open>GetState(name)\<close>
  returns no error afterwards, whatever calls \<open>cs\<close> other goroutines make in between;
  the proxy then hands out the address of that registered entry.
\<close>

theorem GetState_after_EnsureContainerRunning:
  assumes "EnsureContainerRunning e name w = (None, w')"
  shows "snd (GetState name (snd (foldl (perform e) w' cs))) = None \<and>
         dom (snd w) \<subseteq> dom (snd (foldl (perform e) w' cs)) \<and>
         (\<exists>c. snd w' name = Some c \<and>
              ensureContainerRunning e name w = ((IPAddress c, True, None), w'))"
proof -
  have reg: "name \<in> dom (snd w')"
    by (rule EnsureContainerRunning_registered [OF assms])
  with performs_dom [of w' e cs] have "name \<in> dom (snd (foldl (perform e) w' cs))"
    by blast
  then have g: "snd (GetState name (snd (foldl (perform e) w' cs))) = None"
    by (auto simp: GetState_def)
  have "dom (snd w') = dom (snd w)"
    using EnsureContainerRunning_dom [of e name w] assms by simp
  with performs_dom [of w' e cs]
  have d: "dom (snd w) \<subseteq> dom (snd (foldl (perform e) w' cs))"
    by simp
  from reg obtain c where c: "snd w' name = Some c"
    by auto
  with assms have "ensureContainerRunning e name w = ((IPAddress c, True, None), w')"
    by (simp add: ensureContainerRunning_def GetState_def)
  with g d c show ?thesis
    by blast
qed

theorem GetState_after_EnsureContainerRunning_witness:
  "fst (EnsureContainerRunning env0 ''bs-a'' ([], cache0)) = None \<and>
   snd (GetState ''bs-a'' (snd (foldl (perform env0)
     (snd (EnsureContainerRunning env0 ''bs-a'' ([], cache0)))
     [CallStop ''bs-a'', CallRegister ''bs-b'']))) = None \<and>
   fst (ensureContainerRunning env0 ''bs-a'' ([], cache0)) = (''172.17.0.2'', True, None)"
proof -
  have f: "fst (EnsureContainerRunning env0 ''bs-a'' ([], cache0)) = None"
    by (simp add: run_defs env0_defs)
  then obtain w' where h: "EnsureContainerRunning env0 ''bs-a'' ([], cache0) = (None, w')"
    by (metis prod.collapse)
  have a: "fst (ensureContainerRunning env0 ''bs-a'' ([], cache0)) = (''172.17.0.2'', True, None)"
    by (simp add: ensureContainerRunning_def run_defs env0_defs)
  from GetState_after_EnsureContainerRunning [OF h, of "[CallStop ''bs-a'', CallRegister ''bs-b'']"]
    f h a show ?thesis
    by simp
qed

section \<open>The lifecycle scheduler\<close>

lemma wrap64_id: "- (2 ^ 63) \<le> x \<Longrightarrow> x < 2 ^ 63 \<Longrightarrow> wrap64 x = x"
  by (simp add: wrap64_def)

lemmas duration_defs =
  PAUSE_DELAY_def STOP_DELAY_def time_Hour_def time_Minute_def time_Second_def
  maxDuration_def minDuration_def zeroTime_def

lemma timeSince_used:
  "LastUsed c = Some u \<Longrightarrow>
     fst (timeSince e c l) = timeSub (clock e (l @ [ENow (clock e l)])) u"
  by (simp add: timeSince_def timeNow_def)

lemma timeSince_never:
  "LastUsed c = None \<Longrightarrow> fst (timeSince e c l) = timeSub (clock e l) zeroTime"
  by (simp add: timeSince_def timeNow_def)

lemma visitContainer_vars:
  "snd (snd (visitContainer e name c (l, vars))) =
     (if Running c then
        (if \<not> Paused c then
           (if fst (timeSince e c l) < PAUSE_DELAY
            then vars\<lparr>nextRunner := min (nextRunner vars) (durSub PAUSE_DELAY (fst (timeSince e c l)))\<rparr>
            else vars\<lparr>toPause := toPause vars @ [name]\<rparr>)
         else
           (if fst (timeSince e c l) < STOP_DELAY
            then vars\<lparr>nextRunner := min (nextRunner vars) (durSub STOP_DELAY (fst (timeSince e c l)))\<rparr>
            else vars\<lparr>toStop := toStop vars @ [name]\<rparr>))
      else vars)"
  by (simp add: visitContainer_def split: prod.splits)

lemma idle_below:
  assumes "time_Hour - maxDuration \<le> t - u" and "t - u < d" and "d \<le> time_Hour" and "0 \<le> d"
  shows "timeSub t u < d" and "durSub d (timeSub t u) = d - (t - u)"
proof -
  from assms have ts: "timeSub t u = t - u"
    by (simp add: timeSub_def duration_defs)
  with assms show "timeSub t u < d" by simp
  from assms have "- (2 ^ 63) \<le> d - (t - u)" and "d - (t - u) < 2 ^ 63"
    by (simp_all add: duration_defs)
  then show "durSub d (timeSub t u) = d - (t - u)"
    by (simp add: durSub_def ts wrap64_id)
qed

lemma idle_above:
  assumes "d \<le> t - u" and "d \<le> time_Hour" and "0 \<le> d"
  shows "\<not> timeSub t u < d"
  using assms by (simp add: timeSub_def duration_defs)

text \<open>
  One visit of the closure, with \<open>idle\<close> the time from the last use to the closure's
  clock reading: a running,
  unpaused instance idle for less than a minute only lowers the next delay to at most one
  minute minus idle, otherwise it is appended to the pause list; a running, paused instance
  idle for less than an hour only lowers the next delay to at most one hour minus idle,
  otherwise it is appended to the stop list; an instance that is not running changes
  nothing. (The bound on \<open>idle\<close> keeps the 64-bit subtraction from wrapping; every last use
  that is not in the future meets it.)
\<close>

lemma visit_classification:
  "(LastUsed c = Some u \<and>
    time_Hour - maxDuration \<le> clock e (l @ [ENow (clock e l)]) - u \<longrightarrow>
      (let idle = clock e (l @ [ENow (clock e l)]) - u;
           vars' = snd (snd (visitContainer e name c (l, vars))) in
       (Running c \<and> \<not> Paused c \<and> idle < time_Minute \<longrightarrow>
          vars' = vars\<lparr>nextRunner := min (nextRunner vars) (time_Minute - idle)\<rparr>) \<and>
       (Running c \<and> \<not> Paused c \<and> time_Minute \<le> idle \<longrightarrow>
          vars' = vars\<lparr>toPause := toPause vars @ [name]\<rparr>) \<and>
       (Running c \<and> Paused c \<and> idle < time_Hour \<longrightarrow>
          vars' = vars\<lparr>nextRunner := min (nextRunner vars) (time_Hour - idle)\<rparr>) \<and>
       (Running c \<and> Paused c \<and> time_Hour \<le> idle \<longrightarrow>
          vars' = vars\<lparr>toStop := toStop vars @ [name]\<rparr>))) \<and>
   (\<not> Running c \<longrightarrow> snd (snd (visitContainer e name c (l, vars))) = vars)"
proof -
  have m: "time_Minute \<le> time_Hour" "0 \<le> time_Minute" "time_Hour \<le> time_Hour" "0 \<le> time_Hour"
    by (simp_all add: duration_defs)
  show ?thesis
    using idle_below [of "clock e (l @ [ENow (clock e l)])" u time_Minute, OF _ _ m(1,2)]
      idle_below [of "clock e (l @ [ENow (clock e l)])" u time_Hour, OF _ _ m(3,4)]
      idle_above [of time_Minute "clock e (l @ [ENow (clock e l)])" u, OF _ m(1,2)]
      idle_above [of time_Hour "clock e (l @ [ENow (clock e l)])" u, OF _ m(3,4)]
    by (auto simp: visitContainer_vars timeSince_used Let_def PAUSE_DELAY_def STOP_DELAY_def)
qed

lemma visit_classification_examples:
  "LastUsed (usedAgo running0 30000000000) = Some 63869999971000000000 \<and>
   time_Hour - maxDuration \<le> clock env0 ([] @ [ENow (clock env0 [])]) - 63869999971000000000 \<and>
   snd (snd (visitContainer env0 ''bs-a'' (usedAgo running0 30000000000) ([], vars0))) =
     vars0\<lparr>nextRunner := 30000000000\<rparr> \<and>
   snd (snd (visitContainer env0 ''bs-a'' (usedAgo running0 90000000000) ([], vars0))) =
     vars0\<lparr>toPause := [''bs-a'']\<rparr> \<and>
   snd (snd (visitContainer env0 ''bs-a'' (usedAgo paused0 30000000000) ([], vars0))) =
     vars0\<lparr>nextRunner := 60000000000\<rparr> \<and>
   snd (snd (visitContainer env0 ''bs-a'' (usedAgo paused0 1800000000000) ([], vars0))) =
     vars0\<lparr>nextRunner := 60000000000\<rparr> \<and>
   snd (snd (visitContainer env0 ''bs-a'' (usedAgo paused0 7200000000000) ([], vars0))) =
     vars0\<lparr>toStop := [''bs-a'']\<rparr> \<and>
   snd (snd (visitContainer env0 ''bs-a''
     (usedAgo (running0\<lparr>Running := False\<rparr>) 7200000000000) ([], vars0))) = vars0"
  using
    visit_classification [of "usedAgo running0 30000000000" 63869999971000000000
      env0 "[]" "''bs-a''" vars0]
    visit_classification [of "usedAgo running0 90000000000" 63869999911000000000
      env0 "[]" "''bs-a''" vars0]
    visit_classification [of "usedAgo paused0 30000000000" 63869999971000000000
      env0 "[]" "''bs-a''" vars0]
    visit_classification [of "usedAgo paused0 1800000000000" 63869998201000000000
      env0 "[]" "''bs-a''" vars0]
    visit_classification [of "usedAgo paused0 7200000000000" 63869992801000000000
      env0 "[]" "''bs-a''" vars0]
    visit_classification [of "usedAgo (running0\<lparr>Running := False\<rparr>) 7200000000000"
      63869992801000000000 env0 "[]" "''bs-a''" vars0]
  by (simp add: usedAgo_def env0_defs vars0_def duration_defs Let_def)

text \<open>
  C3. A running instance that was never used has, for the scheduler, been idle since the
  zero time: at any clock reading at least an hour after the zero time that is at or above
  both thresholds (and it is the largest duration at every reading a 64-bit duration
  cannot hold, as all readings of a present-day clock are). Such an instance is appended
  to the pause list when it is not paused and to the stop list when it is paused, and
  never lowers the next delay.
\<close>

theorem never_used_is_due:
  assumes "Running c" and "LastUsed c = None" and "time_Hour \<le> clock e l"
  shows "time_Minute \<le> fst (timeSince e c l) \<and> time_Hour \<le> fst (timeSince e c l) \<and>
         (maxDuration \<le> clock e l \<longrightarrow> fst (timeSince e c l) = maxDuration) \<and>
         (\<not> Paused c \<longrightarrow>
            snd (snd (visitContainer e name c (l, vars))) = vars\<lparr>toPause := toPause vars @ [name]\<rparr>) \<and>
         (Paused c \<longrightarrow>
            snd (snd (visitContainer e name c (l, vars))) = vars\<lparr>toStop := toStop vars @ [name]\<rparr>)"
proof -
  have ts: "fst (timeSince e c l) = timeSub (clock e l) zeroTime"
    by (rule timeSince_never [OF assms(2)])
  from assms(3) have h: "time_Hour \<le> timeSub (clock e l) zeroTime"
    by (simp add: timeSub_def duration_defs)
  then have m: "time_Minute \<le> timeSub (clock e l) zeroTime"
    by (simp add: duration_defs)
  have x: "maxDuration \<le> clock e l \<longrightarrow> timeSub (clock e l) zeroTime = maxDuration"
    by (simp add: timeSub_def duration_defs)
  from h m x assms(1) show ?thesis
    by (simp add: visitContainer_vars ts PAUSE_DELAY_def STOP_DELAY_def)
qed

theorem never_used_is_due_witness:
  "Running running0 \<and> LastUsed running0 = None \<and> time_Hour \<le> clock env0 [] \<and>
   fst (timeSince env0 running0 []) = maxDuration \<and>
   snd (snd (visitContainer env0 ''bs-a'' running0 ([], vars0))) = vars0\<lparr>toPause := [''bs-a'']\<rparr> \<and>
   Running paused0 \<and> LastUsed paused0 = None \<and>
   snd (snd (visitContainer env0 ''bs-a'' paused0 ([], vars0))) = vars0\<lparr>toStop := [''bs-a'']\<rparr>"
  using never_used_is_due [of running0 env0 "[]" "''bs-a''" vars0]
    never_used_is_due [of paused0 env0 "[]" "''bs-a''" vars0]
  by (simp add: env0_defs vars0_def duration_defs)

section \<open>The scheduler's returned delay\<close>

lemma Min_insert_min:
  "finite S \<Longrightarrow> Min (insert (min a b) S) = Min (insert a (insert b S))"
  by (cases "S = {}") (simp_all add: min.assoc)

lemma IterContainers_nextRunner:
  "nextRunner (snd (IterContainers (visitContainer e) ks st (l, vars))) =
     Min (insert (nextRunner vars) (set (spec_contributions e ks st l)))"
proof (induction ks arbitrary: l vars)
  case Nil
  show ?case by simp
next
  case (Cons k ks)
  show ?case
  proof (cases "st k")
    case None
    with Cons show ?thesis by simp
  next
    case (Some c)
    obtain idle l' where ts: "timeSince e c l = (idle, l')"
      by (cases "timeSince e c l")
    obtain vars' where v: "visitContainer e k c (l, vars) = (True, l', vars')"
      using ts by (simp add: visitContainer_def)
    have nr: "nextRunner vars' =
        (if Running c \<and> idle < spec_threshold c
         then min (nextRunner vars) (durSub (spec_threshold c) idle) else nextRunner vars)"
      using visitContainer_vars [of e k c l vars] ts v
      by (auto simp: spec_threshold_def)
    have "nextRunner (snd (IterContainers (visitContainer e) (k # ks) st (l, vars))) =
        Min (insert (nextRunner vars') (set (spec_contributions e ks st l')))"
      using Some v Cons [of l' vars'] by simp
    also have "\<dots> = Min (insert (nextRunner vars) (set (spec_contributions e (k # ks) st l)))"
    proof (cases "Running c \<and> idle < spec_threshold c")
      case True
      have "Min (insert (min (nextRunner vars) (durSub (spec_threshold c) idle))
               (set (spec_contributions e ks st l'))) =
            Min (insert (nextRunner vars) (insert (durSub (spec_threshold c) idle)
               (set (spec_contributions e ks st l'))))"
        by (rule Min_insert_min) simp
      with True nr Some ts show ?thesis by simp
    next
      case False
      with nr Some ts show ?thesis by auto
    qed
    finally show ?thesis .
  qed
qed

text \<open>
  C2, as the code has it. The pass starts its bound at one minute, not at one hour, and
  only ever lowers it: the returned delay is the minimum of one minute and the
  contributions of the kept instances, hence one minute when nothing was kept.
\<close>

theorem returned_delay_capped_at_minute:
  "fst (stopOldContainersJob e order (l, st)) =
     Min (insert time_Minute (set (spec_contributions e order st l))) \<and>
   fst (stopOldContainersJob e order (l, st)) \<le> time_Minute \<and>
   (spec_contributions e order st l = [] \<longrightarrow>
      fst (stopOldContainersJob e order (l, st)) = time_Minute)"
proof -
  have "fst (stopOldContainersJob e order (l, st)) =
      nextRunner (snd (IterContainers (visitContainer e) order st
        (l, \<lparr>toStop = [], toPause = [], nextRunner = time_Minute\<rparr>)))"
    by (simp add: stopOldContainersJob_def split: prod.splits)
  then have eq: "fst (stopOldContainersJob e order (l, st)) =
      Min (insert time_Minute (set (spec_contributions e order st l)))"
    by (simp add: IterContainers_nextRunner)
  then show ?thesis by auto
qed

text \<open>
  As the specification words it the property fails: a paused instance idle for half an hour contributes half an
  hour, and the pass returns one minute; with no instance at all the pass returns one
  minute, not one hour.
\<close>

theorem returned_delay_counterexample:
  "spec_contributions env0 [''bs-a''] halfHourIdle [] = [1800000000000] \<and>
   fst (stopOldContainersJob env0 [''bs-a''] ([], halfHourIdle)) = 60000000000 \<and>
   fst (stopOldContainersJob env0 [''bs-a''] ([], halfHourIdle)) \<noteq>
     spec_nextDelay (spec_contributions env0 [''bs-a''] halfHourIdle []) \<and>
   fst (stopOldContainersJob env0 [] ([], Map.empty)) \<noteq>
     spec_nextDelay (spec_contributions env0 [] Map.empty [])"
  by (simp add: stopOldContainersJob_def visitContainer_def timeSince_def timeNow_def
      timeSub_def durSub_def wrap64_def spec_nextDelay_def spec_threshold_def
      halfHourIdle_def env0_defs duration_defs)

theorem returned_delay_capped_at_minute_witness:
  "spec_contributions env0 [] Map.empty [] = [] \<and>
   fst (stopOldContainersJob env0 [] ([], Map.empty)) = time_Minute \<and>
   fst (stopOldContainersJob env0 [''bs-a''] ([], halfHourIdle)) =
     Min (insert time_Minute (set (spec_contributions env0 [''bs-a''] halfHourIdle [])))"
  using returned_delay_capped_at_minute [of env0 "[]" "[]" Map.empty]
    returned_delay_capped_at_minute [of env0 "[''bs-a'']" "[]" halfHourIdle]
  by simp

section \<open>A pass of the scheduler over the whole cache\<close>

lemma visitContainer_result:
  "\<exists>vars'. visitContainer e k c (l, vars) = (True, snd (timeSince e c l), vars')"
  by (simp add: visitContainer_def split: prod.splits)

lemma IterContainers_Cons:
  assumes "st k = Some c"
  shows "IterContainers (visitContainer e) (k # ks) st (l, vars) =
     IterContainers (visitContainer e) ks st
       (snd (timeSince e c l), snd (snd (visitContainer e k c (l, vars))))"
proof -
  from visitContainer_result [of e k c l vars]
  obtain vars' where v: "visitContainer e k c (l, vars) = (True, snd (timeSince e c l), vars')"
    by blast
  then have "snd (snd (visitContainer e k c (l, vars))) = vars'" by simp
  with assms v show ?thesis by simp
qed

lemma visitContainer_verdict:
  assumes clk: "\<And>l'. time_Hour \<le> clock e l'"
    and used: "\<And>u l'. LastUsed c = Some u \<Longrightarrow> time_Hour - maxDuration \<le> clock e l' - u"
  shows "snd (snd (visitContainer e k c (l, vars))) =
     (case spec_verdict (clock e (l @ [ENow (clock e l)])) c of
        Keep d \<Rightarrow> vars\<lparr>nextRunner := min (nextRunner vars) d\<rparr>
      | PauseDue \<Rightarrow> vars\<lparr>toPause := toPause vars @ [k]\<rparr>
      | StopDue \<Rightarrow> vars\<lparr>toStop := toStop vars @ [k]\<rparr>
      | Ignored \<Rightarrow> vars)"
proof (cases "LastUsed c")
  case None
  from clk [of l] have "time_Hour \<le> timeSub (clock e l) zeroTime"
    by (simp add: timeSub_def duration_defs)
  then have "\<not> fst (timeSince e c l) < STOP_DELAY" "\<not> fst (timeSince e c l) < PAUSE_DELAY"
    by (simp_all add: timeSince_never [OF None] duration_defs)
  with None show ?thesis
    by (simp add: visitContainer_vars spec_verdict_def)
next
  case (Some u)
  let ?t = "clock e (l @ [ENow (clock e l)])"
  have m: "time_Minute \<le> time_Hour" "0 \<le> time_Minute" "time_Hour \<le> time_Hour" "0 \<le> time_Hour"
    by (simp_all add: duration_defs)
  note b = used [OF Some, of "l @ [ENow (clock e l)]"]
  have ts: "fst (timeSince e c l) = timeSub ?t u"
    by (rule timeSince_used [OF Some])
  show ?thesis
    using idle_below [of ?t u time_Minute, OF b _ m(1,2)]
      idle_below [of ?t u time_Hour, OF b _ m(3,4)]
      idle_above [of time_Minute ?t u, OF _ m(1,2)]
      idle_above [of time_Hour ?t u, OF _ m(3,4)] Some
    by (auto simp: visitContainer_vars ts spec_verdict_def PAUSE_DELAY_def STOP_DELAY_def)
qed

lemma keptDelays_Cons:
  "keptDelays ((k, v) # vs) = (case v of Keep d \<Rightarrow> d # keptDelays vs | _ \<Rightarrow> keptDelays vs)"
  by (cases v) simp_all

lemma IterContainers_verdicts:
  assumes clk: "\<And>l'. time_Hour \<le> clock e l'"
    and used: "\<And>k c u l'. st k = Some c \<Longrightarrow> LastUsed c = Some u \<Longrightarrow>
        time_Hour - maxDuration \<le> clock e l' - u"
  shows "toStop (snd (IterContainers (visitContainer e) ks st (l, vars))) =
           toStop vars @ dueNames StopDue (spec_verdicts e ks st l) \<and>
         toPause (snd (IterContainers (visitContainer e) ks st (l, vars))) =
           toPause vars @ dueNames PauseDue (spec_verdicts e ks st l) \<and>
         nextRunner (snd (IterContainers (visitContainer e) ks st (l, vars))) =
           Min (insert (nextRunner vars) (set (keptDelays (spec_verdicts e ks st l))))"
proof (induction ks arbitrary: l vars)
  case Nil
  show ?case by (simp add: dueNames_def)
next
  case (Cons k ks)
  show ?case
  proof (cases "st k")
    case None
    with Cons show ?thesis by simp
  next
    case (Some c)
    let ?v = "spec_verdict (clock e (l @ [ENow (clock e l)])) c"
    let ?l' = "snd (timeSince e c l)"
    let ?vars' = "snd (snd (visitContainer e k c (l, vars)))"
    have step: "IterContainers (visitContainer e) (k # ks) st (l, vars) =
        IterContainers (visitContainer e) ks st (?l', ?vars')"
      using Some by (rule IterContainers_Cons)
    have vv: "?vars' =
       (case ?v of
          Keep d \<Rightarrow> vars\<lparr>nextRunner := min (nextRunner vars) d\<rparr>
        | PauseDue \<Rightarrow> vars\<lparr>toPause := toPause vars @ [k]\<rparr>
        | StopDue \<Rightarrow> vars\<lparr>toStop := toStop vars @ [k]\<rparr>
        | Ignored \<Rightarrow> vars)"
      by (rule visitContainer_verdict [OF clk]) (rule used [OF Some])
    have sv: "spec_verdicts e (k # ks) st l = (k, ?v) # spec_verdicts e ks st ?l'"
      using Some by simp
    note ih = Cons [of ?l' ?vars']
    show ?thesis
    proof (cases ?v)
      case (Keep d)
      with vv have "?vars' = vars\<lparr>nextRunner := min (nextRunner vars) d\<rparr>" by simp
      with ih Keep show ?thesis
        unfolding step sv
        by (simp add: dueNames_def Min_insert_min)
    next
      case PauseDue
      with vv have "?vars' = vars\<lparr>toPause := toPause vars @ [k]\<rparr>" by simp
      with ih PauseDue show ?thesis
        unfolding step sv by (simp add: dueNames_def)
    next
      case StopDue
      with vv have "?vars' = vars\<lparr>toStop := toStop vars @ [k]\<rparr>" by simp
      with ih StopDue show ?thesis
        unfolding step sv by (simp add: dueNames_def)
    next
      case Ignored
      with vv have "?vars' = vars" by simp
      with ih Ignored show ?thesis
        unfolding step sv by (simp add: dueNames_def)
    qed
  qed
qed

lemma posts_append: "posts a (xs @ ys) = posts a xs @ posts a ys"
  by (induction xs rule: posts.induct) simp_all

lemma timeSince_posts: "posts a (snd (timeSince e c l)) = posts a l"
  by (simp add: timeSince_def timeNow_def posts_append split: option.splits)

lemma IterContainers_posts:
  "posts a (fst (IterContainers (visitContainer e) ks st (l, vars))) = posts a l"
proof (induction ks arbitrary: l vars)
  case Nil
  show ?case by simp
next
  case (Cons k ks)
  show ?case
  proof (cases "st k")
    case None
    with Cons show ?thesis by simp
  next
    case (Some c)
    have "IterContainers (visitContainer e) (k # ks) st (l, vars) =
        IterContainers (visitContainer e) ks st
          (snd (timeSince e c l), snd (snd (visitContainer e k c (l, vars))))"
      using Some by (rule IterContainers_Cons)
    then show ?thesis
      using Cons [of "snd (timeSince e c l)" "snd (snd (visitContainer e k c (l, vars)))"]
      by (simp add: timeSince_posts)
  qed
qed

lemma StopContainer_posts:
  assumes "name \<in> dom st"
  shows "posts a (fst (snd (StopContainer e name (l, st)))) =
           posts a l @ (if a = ''stop'' then [name] else [])"
proof -
  obtain r l1 where ex: "dockerExecCmd e name ''stop'' l = (r, l1)"
    by (cases "dockerExecCmd e name ''stop'' l")
  with dockerExecCmd_snd [of e name "''stop''" l]
  have l1: "l1 = l @ [EPost name ''stop'' (dockerPost e l name ''stop'')]" by simp
  from assms obtain c where c: "st name = Some c" by auto
  show ?thesis
    using ex l1 c
    by (cases r) (simp_all add: StopContainer_def IsRegistered_def updateRunning_ok posts_append)
qed

lemma PauseContainer_posts:
  assumes "name \<in> dom st"
  shows "posts a (fst (snd (PauseContainer e name (l, st)))) =
           posts a l @ (if a = ''pause'' then [name] else [])"
proof -
  obtain r l1 where ex: "dockerExecCmd e name ''pause'' l = (r, l1)"
    by (cases "dockerExecCmd e name ''pause'' l")
  with dockerExecCmd_snd [of e name "''pause''" l]
  have l1: "l1 = l @ [EPost name ''pause'' (dockerPost e l name ''pause'')]" by simp
  from assms obtain c where c: "st name = Some c" by auto
  show ?thesis
    using ex l1 c
    by (cases r) (simp_all add: PauseContainer_def IsRegistered_def updatePaused_ok posts_append)
qed

lemma stopEach_posts:
  assumes "set names \<subseteq> dom (snd w)"
  shows "posts a (fst (stopEach e names w)) =
           posts a (fst w) @ (if a = ''stop'' then names else []) \<and>
         dom (snd (stopEach e names w)) = dom (snd w)"
  using assms
proof (induction names arbitrary: w)
  case Nil
  show ?case by simp
next
  case (Cons name names)
  obtain l st where w: "w = (l, st)" by (cases w)
  let ?w1 = "snd (StopContainer e name w)"
  have d: "dom (snd ?w1) = dom (snd w)"
    by (rule StopContainer_dom)
  from Cons.prems w have n: "name \<in> dom st" by simp
  have p: "posts a (fst ?w1) = posts a l @ (if a = ''stop'' then [name] else [])"
    using StopContainer_posts [OF n, of a e l] w by simp
  from Cons.prems d have "set names \<subseteq> dom (snd ?w1)" by simp
  from Cons.IH [OF this] p d w show ?case by simp
qed

lemma pauseEach_posts:
  assumes "set names \<subseteq> dom (snd w)"
  shows "posts a (fst (pauseEach e names w)) =
           posts a (fst w) @ (if a = ''pause'' then names else []) \<and>
         dom (snd (pauseEach e names w)) = dom (snd w)"
  using assms
proof (induction names arbitrary: w)
  case Nil
  show ?case by simp
next
  case (Cons name names)
  obtain l st where w: "w = (l, st)" by (cases w)
  let ?w1 = "snd (PauseContainer e name w)"
  have d: "dom (snd ?w1) = dom (snd w)"
    by (rule PauseContainer_dom)
  from Cons.prems w have n: "name \<in> dom st" by simp
  have p: "posts a (fst ?w1) = posts a l @ (if a = ''pause'' then [name] else [])"
    using PauseContainer_posts [OF n, of a e l] w by simp
  from Cons.prems d have "set names \<subseteq> dom (snd ?w1)" by simp
  from Cons.IH [OF this] p d w show ?case by simp
qed

lemma spec_verdicts_names: "set (map fst (spec_verdicts e ks st l)) \<subseteq> dom st"
  by (induction ks arbitrary: l) (auto split: option.splits)

lemma spec_verdicts_order:
  "set ks \<subseteq> dom st \<Longrightarrow> map fst (spec_verdicts e ks st l) = ks"
  by (induction ks arbitrary: l) (auto split: option.splits)

lemma dueNames_registered: "set (dueNames v (spec_verdicts e ks st l)) \<subseteq> dom st"
  using spec_verdicts_names [of e ks st l] by (auto simp: dueNames_def)

text \<open>
  C4. A pass meets every instance of the cache once, in some order, and judges each by the
  rule of the specification at the clock reading of its visit: running and not paused,
  idle below one minute: kept, contributing one minute minus idle; otherwise pause-due;
  running and paused, idle below one hour: kept, contributing one hour minus idle;
  otherwise stop-due; not running: ignored. The pass then posts \<^verbatim>\<open>stop\<close> to exactly the
  stop-due instances and \<^verbatim>\<open>pause\<close> to exactly the pause-due instances, in the order of
  the pass, and returns the least of one minute and the contributions of the kept
  instances; an ignored instance gets no command and contributes nothing. (The two
  conditions on the clock keep the 64-bit arithmetic from saturating or wrapping: the
  clock reads at least an hour after the zero time, and no last use lies more than 292
  years after a clock reading.)
\<close>

theorem scheduler_pass_classifies_snapshot:
  assumes "distinct order" and "set order = dom st"
    and clk: "\<And>l'. time_Hour \<le> clock e l'"
    and used: "\<And>k c u l'. st k = Some c \<Longrightarrow> LastUsed c = Some u \<Longrightarrow>
        time_Hour - maxDuration \<le> clock e l' - u"
  shows "map fst (spec_verdicts e order st l) = order \<and>
         fst (stopOldContainersJob e order (l, st)) =
           Min (insert time_Minute (set (keptDelays (spec_verdicts e order st l)))) \<and>
         posts ''stop'' (fst (snd (stopOldContainersJob e order (l, st)))) =
           posts ''stop'' l @ dueNames StopDue (spec_verdicts e order st l) \<and>
         posts ''pause'' (fst (snd (stopOldContainersJob e order (l, st)))) =
           posts ''pause'' l @ dueNames PauseDue (spec_verdicts e order st l)"
proof -
  let ?vs = "spec_verdicts e order st l"
  let ?init = "\<lparr>toStop = [], toPause = [], nextRunner = time_Minute\<rparr>"
  obtain l1 vars where it: "IterContainers (visitContainer e) order st (l, ?init) = (l1, vars)"
    by (cases "IterContainers (visitContainer e) order st (l, ?init)")
  have job: "stopOldContainersJob e order (l, st) =
      (nextRunner vars, pauseEach e (toPause vars) (stopEach e (toStop vars) (l1, st)))"
    using it by (simp add: stopOldContainersJob_def)
  from IterContainers_verdicts [of e st order l ?init, OF clk used] it
  have ts: "toStop vars = dueNames StopDue ?vs" and tp: "toPause vars = dueNames PauseDue ?vs"
    and nr: "nextRunner vars = Min (insert time_Minute (set (keptDelays ?vs)))"
    by simp_all
  have l1: "posts a l1 = posts a l" for a
    using IterContainers_posts [of a e order st l ?init] it by simp
  let ?w1 = "stopEach e (toStop vars) (l1, st)"
  have "set (toStop vars) \<subseteq> dom (snd (l1, st))"
    using dueNames_registered [of StopDue e order st l] ts by simp
  from stopEach_posts [OF this]
  have s: "posts a (fst ?w1) = posts a l @ (if a = ''stop'' then toStop vars else [])"
    and d: "dom (snd ?w1) = dom st" for a
    by (simp_all add: l1)
  have "set (toPause vars) \<subseteq> dom (snd ?w1)"
    using dueNames_registered [of PauseDue e order st l] tp d by simp
  from stopEach_posts pauseEach_posts [OF this]
  have p: "posts a (fst (pauseEach e (toPause vars) ?w1)) =
      posts a (fst ?w1) @ (if a = ''pause'' then toPause vars else [])" for a
    by simp
  have o: "map fst ?vs = order"
    using assms(2) by (intro spec_verdicts_order) simp
  have ps: "posts ''stop'' (fst (pauseEach e (toPause vars) ?w1)) =
      posts ''stop'' l @ toStop vars"
    using p [of "''stop''"] s [of "''stop''"] by simp
  have pp: "posts ''pause'' (fst (pauseEach e (toPause vars) ?w1)) =
      posts ''pause'' l @ toPause vars"
    using p [of "''pause''"] s [of "''pause''"] by simp
  from o nr ps pp show ?thesis
    by (simp add: job ts tp)
qed

theorem scheduler_pass_classifies_snapshot_witness:
  "spec_verdicts envSteady [''bs-a'', ''bs-b'', ''bs-c'', ''bs-d'', ''bs-e'', ''bs-f''] fleet [] =
     [(''bs-a'', Keep 30000000000), (''bs-b'', PauseDue), (''bs-c'', Keep 1800000000000),
      (''bs-d'', StopDue), (''bs-e'', Ignored), (''bs-f'', PauseDue)] \<and>
   fst (stopOldContainersJob envSteady
     [''bs-a'', ''bs-b'', ''bs-c'', ''bs-d'', ''bs-e'', ''bs-f''] ([], fleet)) = 30000000000 \<and>
   posts ''stop'' (fst (snd (stopOldContainersJob envSteady
     [''bs-a'', ''bs-b'', ''bs-c'', ''bs-d'', ''bs-e'', ''bs-f''] ([], fleet)))) = [''bs-d''] \<and>
   posts ''pause'' (fst (snd (stopOldContainersJob envSteady
     [''bs-a'', ''bs-b'', ''bs-c'', ''bs-d'', ''bs-e'', ''bs-f''] ([], fleet)))) =
     [''bs-b'', ''bs-f'']"
proof -
  let ?order = "[''bs-a'', ''bs-b'', ''bs-c'', ''bs-d'', ''bs-e'', ''bs-f'']"
  have d: "distinct ?order" by simp
  have s: "set ?order = dom fleet"
    by (auto simp: fleet_def split: if_splits)
  have c: "time_Hour \<le> clock envSteady l'" for l'
    by (simp add: envSteady_def env0_def duration_defs)
  have u: "time_Hour - maxDuration \<le> clock envSteady l' - u"
    if "fleet k = Some c" "LastUsed c = Some u" for k c u l'
    using that
    by (auto simp: fleet_def usedAgo_def running0_def paused0_def envSteady_def env0_def
        duration_defs split: if_splits)
  have v: "spec_verdicts envSteady ?order fleet [] =
     [(''bs-a'', Keep 30000000000), (''bs-b'', PauseDue), (''bs-c'', Keep 1800000000000),
      (''bs-d'', StopDue), (''bs-e'', Ignored), (''bs-f'', PauseDue)]"
    by (simp add: fleet_def usedAgo_def running0_def paused0_def envSteady_def env0_def
        spec_verdict_def duration_defs)
  let ?vs = "spec_verdicts envSteady ?order fleet []"
  let ?job = "stopOldContainersJob envSteady ?order ([], fleet)"
  have "map fst ?vs = ?order \<and>
      fst ?job = Min (insert time_Minute (set (keptDelays ?vs))) \<and>
      posts ''stop'' (fst (snd ?job)) = posts ''stop'' [] @ dueNames StopDue ?vs \<and>
      posts ''pause'' (fst (snd ?job)) = posts ''pause'' [] @ dueNames PauseDue ?vs"
    by (rule scheduler_pass_classifies_snapshot) (rule d, rule s, rule c, erule (1) u)
  with v show ?thesis
    by (simp add: dueNames_def duration_defs)
qed

section \<open>The webhook handler\<close>

lemma splitOn_not_Nil: "splitOn c s \<noteq> []"
  by (induction s) (auto split: list.splits)

lemma joinOn_Cons: "ws \<noteq> [] \<Longrightarrow> joinOn c ((x # w) # ws) = x # joinOn c (w # ws)"
  by (cases ws) simp_all

lemma joinOn_splitOn: "joinOn c (splitOn c s) = s"
proof (induction s)
  case Nil
  show ?case by simp
next
  case (Cons x xs)
  show ?case
  proof (cases "x = c")
    case True
    with Cons splitOn_not_Nil [of c xs] show ?thesis
      by (cases "splitOn c xs") simp_all
  next
    case False
    obtain w ws where sp: "splitOn c xs = w # ws"
      using splitOn_not_Nil [of c xs] by (cases "splitOn c xs") auto
    with Cons False show ?thesis
      by (cases ws) simp_all
  qed
qed

lemma splitOn_three:
  assumes "splitOn c s = [x, y, z]"
  shows "s = x @ c # y @ c # z"
  using joinOn_splitOn [of c s] assms by simp

lemma length_three: "length xs = 3 \<Longrightarrow> \<exists>x y z. xs = [x, y, z]"
  by (auto simp: numeral_3_eq_3 length_Suc_conv)

lemma ref_of_built_push:
  assumes "length (splitOn (CHR ''/'') ref) = 3"
    and "splitOn (CHR ''/'') ref ! 0 = ''refs''"
    and "splitOn (CHR ''/'') ref ! 1 = ''heads''"
    and "splitOn (CHR ''/'') ref ! 2 = branch"
  shows "ref = ''refs/heads/'' @ branch"
proof -
  from length_three [OF assms(1)] obtain x y z where s: "splitOn (CHR ''/'') ref = [x, y, z]"
    by blast
  with assms have "x = ''refs''" "y = ''heads''" "z = branch"
    by simp_all
  with splitOn_three [OF s] show ?thesis by simp
qed

lemma handler_after_signature:
  assumes "prefix ''GitHub-Hookshot/'' (hUserAgent r)"
    and "hContentType r = ''application/json''"
    and "rBody r = Some payload"
    and "unmarshalPush lb payload = Some req"
    and "bc (FullName (Repository req)) = Some conf"
    and "checkSecret lb payload (Secret conf)
           (if hSignature256 r \<noteq> [] then hSignature256 r else hSignature r) = None"
  shows "githubWebhookHandler lb r bc =
     (if hEvent r = ''ping'' then (\<lparr>status = 200, written = ''pong''\<rparr>, bc, None)
      else if hEvent r \<noteq> ''push'' then
        (\<lparr>status = 403, written = ''Action Forbidden''\<rparr>, bc, None)
      else if Private (Repository req) then
        (\<lparr>status = 500, written = ''Cannot Access Private Repos''\<rparr>, bc, None)
      else
        (let ref = splitOn (CHR ''/'') (Ref req);
             branch = DefaultBranch (Repository req) in
         if length ref \<noteq> 3 \<or> ref ! 0 \<noteq> ''refs'' then
           (ignoring ''Ignoring push to '' (Ref req) branch, bc, None)
         else if ref ! 1 = ''tags'' then
           (ignoring ''Ignoring push to tag '' (ref ! 2) branch, bc, None)
         else if ref ! 1 \<noteq> ''heads'' then
           (ignoring ''Ignoring push to '' (Ref req) branch, bc, None)
         else if ref ! 2 \<noteq> branch then
           (ignoring ''Ignoring push to branch '' (ref ! 2) branch, bc, None)
         else
           (case TryLock conf of
              (False, conf') \<Rightarrow>
                (\<lparr>status = 200,
                  written = ''There is already a job deploying'' @ [CHR 0x0A] @
                    ''Adding the build job to the queue''\<rparr>,
                 bc(FullName (Repository req) \<mapsto> conf'\<lparr>Queued := True\<rparr>), None)
            | (True, conf') \<Rightarrow>
                (\<lparr>status = 200,
                  written = ''Deploying '' @ FullName (Repository req) @ ''...''\<rparr>,
                 bc(FullName (Repository req) \<mapsto> conf'), Some (FullName (Repository req))))))"
  using assms unfolding githubWebhookHandler_def Let_def
  by (simp only: if_True if_False not_True_eq_False not_False_eq_True option.case simp_thms)

lemma handler_bad_signature:
  assumes "hContentType r = ''application/json''"
    and "rBody r = Some payload"
    and "unmarshalPush lb payload = Some req"
    and "bc (FullName (Repository req)) = Some conf"
    and "checkSecret lb payload (Secret conf)
           (if hSignature256 r \<noteq> [] then hSignature256 r else hSignature r) = Some msg"
  shows "githubWebhookHandler lb r bc =
     (\<lparr>status = 401,
       written = (if prefix ''GitHub-Hookshot/'' (hUserAgent r)
                  then ''Access Denied: '' @ msg else ''Access Denied'')\<rparr>, bc, None)"
proof (cases "prefix ''GitHub-Hookshot/'' (hUserAgent r)")
  case True
  with assms show ?thesis
    unfolding githubWebhookHandler_def Let_def
    by (simp only: if_True if_False not_True_eq_False not_False_eq_True option.case simp_thms)
next
  case False
  then show ?thesis
    unfolding githubWebhookHandler_def Let_def
    by (simp only: if_True if_False not_True_eq_False not_False_eq_True simp_thms)
qed

text \<open>
  C5. Once the handler has the repository and its secret (JSON content type, a body
  that decodes, a registered repository), a signature that does not verify yields
  401 Access Denied, with the build configuration untouched and no deploy started. The
  response does not mention the event header or the pushed ref: the same request under
  any other event header gets the same answer.
\<close>

theorem invalid_signature_rejected:
  assumes "hContentType r = ''application/json''"
    and "rBody r = Some payload"
    and "unmarshalPush lb payload = Some req"
    and "bc (FullName (Repository req)) = Some conf"
    and "checkSecret lb payload (Secret conf)
           (if hSignature256 r \<noteq> [] then hSignature256 r else hSignature r) = Some msg"
  shows "githubWebhookHandler lb r bc =
           (\<lparr>status = 401,
             written = (if prefix ''GitHub-Hookshot/'' (hUserAgent r)
                        then ''Access Denied: '' @ msg else ''Access Denied'')\<rparr>, bc, None) \<and>
         githubWebhookHandler lb (r\<lparr>hEvent := ev\<rparr>) bc = githubWebhookHandler lb r bc"
proof -
  have a: "githubWebhookHandler lb r bc =
      (\<lparr>status = 401,
        written = (if prefix ''GitHub-Hookshot/'' (hUserAgent r)
                   then ''Access Denied: '' @ msg else ''Access Denied'')\<rparr>, bc, None)"
    using assms by (rule handler_bad_signature [of r payload lb req bc conf msg])
  have b: "githubWebhookHandler lb (r\<lparr>hEvent := ev\<rparr>) bc =
      (\<lparr>status = 401,
        written = (if prefix ''GitHub-Hookshot/'' (hUserAgent (r\<lparr>hEvent := ev\<rparr>))
                   then ''Access Denied: '' @ msg else ''Access Denied'')\<rparr>, bc, None)"
    using assms
    by (intro handler_bad_signature [of "r\<lparr>hEvent := ev\<rparr>" payload lb req bc conf msg])
      (auto split: if_splits)
  from a b show ?thesis by simp
qed

lemmas handler0_defs =
  checkSecret_def splitN2_def lib0_def delivery_def config0_def RegisterSecret_def push0_def

theorem invalid_signature_rejected_witness:
  "checkSecret lib0 ''push-main'' ''s3cret'' ''sha256=00'' = Some ''Signature invalid'' \<and>
   githubWebhookHandler lib0 (delivery ''ping'' ''sha256=00'' ''push-main'') config0 =
     (\<lparr>status = 401, written = ''Access Denied: Signature invalid''\<rparr>, config0, None) \<and>
   githubWebhookHandler lib0 (delivery ''push'' ''sha256=00'' ''push-dev'') config0 =
     (\<lparr>status = 401, written = ''Access Denied: Signature invalid''\<rparr>, config0, None)"
proof -
  have s: "checkSecret lib0 ''push-main'' ''s3cret'' ''sha256=00'' = Some ''Signature invalid''"
    "checkSecret lib0 ''push-dev'' ''s3cret'' ''sha256=00'' = Some ''Signature invalid''"
    by (simp_all add: handler0_defs)
  have c: "config0 ''owner/a'' = Some \<lparr>Secret = ''s3cret'', BuildingMutex = False, Queued = False\<rparr>"
    by (simp add: config0_def RegisterSecret_def)
  from s c
    invalid_signature_rejected [of "delivery ''ping'' ''sha256=00'' ''push-main''"
      "''push-main''" lib0 "push0 False ''refs/heads/main''" config0
      "\<lparr>Secret = ''s3cret'', BuildingMutex = False, Queued = False\<rparr>" "''Signature invalid''"]
    invalid_signature_rejected [of "delivery ''push'' ''sha256=00'' ''push-dev''"
      "''push-dev''" lib0 "push0 False ''refs/heads/dev''" config0
      "\<lparr>Secret = ''s3cret'', BuildingMutex = False, Queued = False\<rparr>" "''Signature invalid''"]
  show ?thesis
    by (simp add: lib0_def delivery_def push0_def)
qed

text \<open>
  Without a signature that verifies no request is answered 200, none changes the build
  configuration and none starts a deploy.
\<close>

lemma unsigned_never_acknowledged:
  assumes "status (fst (githubWebhookHandler lb r bc)) = 200 \<or>
           snd (githubWebhookHandler lb r bc) \<noteq> (bc, None)"
  shows "\<exists>payload req c. rBody r = Some payload \<and> unmarshalPush lb payload = Some req \<and>
           bc (FullName (Repository req)) = Some c \<and>
           checkSecret lb payload (Secret c)
             (if hSignature256 r \<noteq> [] then hSignature256 r else hSignature r) = None"
proof (rule ccontr)
  assume n: "\<not> ?thesis"
  have "status (fst (githubWebhookHandler lb r bc)) \<in> {400, 401} \<and>
        snd (githubWebhookHandler lb r bc) = (bc, None)"
  proof (cases "prefix ''GitHub-Hookshot/'' (hUserAgent r) \<and>
      hContentType r = ''application/json''")
    case False
    then show ?thesis
      by (auto simp: githubWebhookHandler_def)
  next
    case True
    show ?thesis
    proof (cases "rBody r")
      case None
      with True show ?thesis by (simp add: githubWebhookHandler_def)
    next
      case (Some payload)
      show ?thesis
      proof (cases "unmarshalPush lb payload")
        case None
        with True Some show ?thesis by (simp add: githubWebhookHandler_def)
      next
        case req: (Some req)
        show ?thesis
        proof (cases "bc (FullName (Repository req))")
          case None
          with True Some req show ?thesis by (simp add: githubWebhookHandler_def Let_def)
        next
          case c: (Some c)
          with n Some req obtain msg where "checkSecret lb payload (Secret c)
              (if hSignature256 r \<noteq> [] then hSignature256 r else hSignature r) = Some msg"
            by (cases "checkSecret lb payload (Secret c)
              (if hSignature256 r \<noteq> [] then hSignature256 r else hSignature r)") auto
          with True Some req c
            handler_bad_signature [of r payload lb req bc c msg]
          show ?thesis by simp
        qed
      qed
    qed
  qed
  with assms show False by auto
qed

lemma signed_delivery_outcomes:
  assumes "prefix ''GitHub-Hookshot/'' (hUserAgent r)"
    and "hContentType r = ''application/json''"
    and "rBody r = Some payload"
    and "unmarshalPush lb payload = Some req"
    and "bc (FullName (Repository req)) = Some conf"
    and "checkSecret lb payload (Secret conf)
           (if hSignature256 r \<noteq> [] then hSignature256 r else hSignature r) = None"
  shows
    "(snd (snd (githubWebhookHandler lb r bc)) \<noteq> None \<or>
      fst (snd (githubWebhookHandler lb r bc)) \<noteq> bc \<longrightarrow>
        hEvent r = ''push'' \<and> \<not> Private (Repository req) \<and>
        Ref req = ''refs/heads/'' @ DefaultBranch (Repository req)) \<and>
     (hEvent r = ''ping'' \<longrightarrow>
        githubWebhookHandler lb r bc = (\<lparr>status = 200, written = ''pong''\<rparr>, bc, None)) \<and>
     (hEvent r = ''push'' \<and> \<not> Private (Repository req) \<and>
      Ref req \<noteq> ''refs/heads/'' @ DefaultBranch (Repository req) \<longrightarrow>
        status (fst (githubWebhookHandler lb r bc)) = 200 \<and>
        snd (githubWebhookHandler lb r bc) = (bc, None)) \<and>
     (hEvent r = ''push'' \<and> Private (Repository req) \<longrightarrow>
        githubWebhookHandler lb r bc =
          (\<lparr>status = 500, written = ''Cannot Access Private Repos''\<rparr>, bc, None)) \<and>
     (hEvent r \<noteq> ''ping'' \<and> hEvent r \<noteq> ''push'' \<longrightarrow>
        githubWebhookHandler lb r bc =
          (\<lparr>status = 403, written = ''Action Forbidden''\<rparr>, bc, None))"
proof -
  have h: "githubWebhookHandler lb r bc =
     (if hEvent r = ''ping'' then (\<lparr>status = 200, written = ''pong''\<rparr>, bc, None)
      else if hEvent r \<noteq> ''push'' then
        (\<lparr>status = 403, written = ''Action Forbidden''\<rparr>, bc, None)
      else if Private (Repository req) then
        (\<lparr>status = 500, written = ''Cannot Access Private Repos''\<rparr>, bc, None)
      else
        (let ref = splitOn (CHR ''/'') (Ref req);
             branch = DefaultBranch (Repository req) in
         if length ref \<noteq> 3 \<or> ref ! 0 \<noteq> ''refs'' then
           (ignoring ''Ignoring push to '' (Ref req) branch, bc, None)
         else if ref ! 1 = ''tags'' then
           (ignoring ''Ignoring push to tag '' (ref ! 2) branch, bc, None)
         else if ref ! 1 \<noteq> ''heads'' then
           (ignoring ''Ignoring push to '' (Ref req) branch, bc, None)
         else if ref ! 2 \<noteq> branch then
           (ignoring ''Ignoring push to branch '' (ref ! 2) branch, bc, None)
         else
           (case TryLock conf of
              (False, conf') \<Rightarrow>
                (\<lparr>status = 200,
                  written = ''There is already a job deploying'' @ [CHR 0x0A] @
                    ''Adding the build job to the queue''\<rparr>,
                 bc(FullName (Repository req) \<mapsto> conf'\<lparr>Queued := True\<rparr>), None)
            | (True, conf') \<Rightarrow>
                (\<lparr>status = 200,
                  written = ''Deploying '' @ FullName (Repository req) @ ''...''\<rparr>,
                 bc(FullName (Repository req) \<mapsto> conf'), Some (FullName (Repository req))))))"
    using assms by (rule handler_after_signature [of r payload lb req bc conf])
  have ping: "hEvent r = ''ping'' \<longrightarrow>
      githubWebhookHandler lb r bc = (\<lparr>status = 200, written = ''pong''\<rparr>, bc, None)"
    by (simp add: h)
  have priv: "hEvent r = ''push'' \<and> Private (Repository req) \<longrightarrow>
      githubWebhookHandler lb r bc =
        (\<lparr>status = 500, written = ''Cannot Access Private Repos''\<rparr>, bc, None)"
    by (simp add: h)
  have other: "hEvent r = ''push'' \<and> \<not> Private (Repository req) \<and>
      Ref req \<noteq> ''refs/heads/'' @ DefaultBranch (Repository req) \<longrightarrow>
        status (fst (githubWebhookHandler lb r bc)) = 200 \<and>
        snd (githubWebhookHandler lb r bc) = (bc, None)"
    using ref_of_built_push [of "Ref req" "DefaultBranch (Repository req)"]
    by (auto simp: h Let_def ignoring_def)
  have only: "snd (snd (githubWebhookHandler lb r bc)) \<noteq> None \<or>
      fst (snd (githubWebhookHandler lb r bc)) \<noteq> bc \<longrightarrow>
        hEvent r = ''push'' \<and> \<not> Private (Repository req) \<and>
        Ref req = ''refs/heads/'' @ DefaultBranch (Repository req)"
    using ref_of_built_push [of "Ref req" "DefaultBranch (Repository req)"]
    by (auto simp: h Let_def split: if_splits)
  have forb: "hEvent r \<noteq> ''ping'' \<and> hEvent r \<noteq> ''push'' \<longrightarrow>
      githubWebhookHandler lb r bc =
        (\<lparr>status = 403, written = ''Action Forbidden''\<rparr>, bc, None)"
    by (simp add: h)
  from only ping other priv forb show ?thesis
    by blast
qed

text \<open>
  C6, as the code has it. A deploy is started or a rebuild queued only by a request that
  passes the handler's header checks (a User-Agent that starts with
  \<^verbatim>\<open>GitHub-Hookshot/\<close>, the Content-Type \<^verbatim>\<open>application/json\<close>), is validly signed, is
  a push event for a repository that is not private, and whose ref is exactly
  \<^verbatim>\<open>refs/heads/\<close> followed by the default branch of the payload. For a validly signed
  request: one that fails the User-Agent check is answered 401 and one that fails the
  Content-Type check 400; one that passes both is answered 200 \<^verbatim>\<open>pong\<close> for a ping,
  200 for a push on a repository that is not private to any other ref (a tag, another
  branch, a malformed ref), 500 for a push on a private repository and 403 for any other
  event; none of these touches the build configuration or starts a deploy.
\<close>

theorem build_only_for_default_branch_push:
  "(snd (githubWebhookHandler lb r bc) \<noteq> (bc, None) \<longrightarrow>
      (\<exists>payload req c.
         prefix ''GitHub-Hookshot/'' (hUserAgent r) \<and>
         hContentType r = ''application/json'' \<and>
         rBody r = Some payload \<and> unmarshalPush lb payload = Some req \<and>
         bc (FullName (Repository req)) = Some c \<and>
         checkSecret lb payload (Secret c)
           (if hSignature256 r \<noteq> [] then hSignature256 r else hSignature r) = None \<and>
         hEvent r = ''push'' \<and> \<not> Private (Repository req) \<and>
         Ref req = ''refs/heads/'' @ DefaultBranch (Repository req))) \<and>
   (rBody r = Some payload \<and> unmarshalPush lb payload = Some req \<and>
    bc (FullName (Repository req)) = Some c \<and>
    checkSecret lb payload (Secret c)
      (if hSignature256 r \<noteq> [] then hSignature256 r else hSignature r) = None \<longrightarrow>
      (\<not> prefix ''GitHub-Hookshot/'' (hUserAgent r) \<longrightarrow>
         githubWebhookHandler lb r bc =
           (\<lparr>status = 401, written = ''Access Denied''\<rparr>, bc, None)) \<and>
      (prefix ''GitHub-Hookshot/'' (hUserAgent r) \<and>
       hContentType r \<noteq> ''application/json'' \<longrightarrow>
         githubWebhookHandler lb r bc =
           (\<lparr>status = 400, written = ''Invalid Content-Type. Only json Supported''\<rparr>,
            bc, None)) \<and>
      (prefix ''GitHub-Hookshot/'' (hUserAgent r) \<and>
       hContentType r = ''application/json'' \<longrightarrow>
         (hEvent r = ''ping'' \<longrightarrow>
            githubWebhookHandler lb r bc = (\<lparr>status = 200, written = ''pong''\<rparr>, bc, None)) \<and>
         (hEvent r = ''push'' \<and> \<not> Private (Repository req) \<and>
          Ref req \<noteq> ''refs/heads/'' @ DefaultBranch (Repository req) \<longrightarrow>
            status (fst (githubWebhookHandler lb r bc)) = 200 \<and>
            snd (githubWebhookHandler lb r bc) = (bc, None)) \<and>
         (hEvent r = ''push'' \<and> Private (Repository req) \<longrightarrow>
            githubWebhookHandler lb r bc =
              (\<lparr>status = 500, written = ''Cannot Access Private Repos''\<rparr>, bc, None)) \<and>
         (hEvent r \<noteq> ''ping'' \<and> hEvent r \<noteq> ''push'' \<longrightarrow>
            githubWebhookHandler lb r bc =
              (\<lparr>status = 403, written = ''Action Forbidden''\<rparr>, bc, None))))"
proof -
  have agent: "\<not> prefix ''GitHub-Hookshot/'' (hUserAgent r) \<longrightarrow>
      githubWebhookHandler lb r bc = (\<lparr>status = 401, written = ''Access Denied''\<rparr>, bc, None)"
    by (simp add: githubWebhookHandler_def)
  have ctype: "prefix ''GitHub-Hookshot/'' (hUserAgent r) \<and>
      hContentType r \<noteq> ''application/json'' \<longrightarrow>
      githubWebhookHandler lb r bc =
        (\<lparr>status = 400, written = ''Invalid Content-Type. Only json Supported''\<rparr>, bc, None)"
    by (simp add: githubWebhookHandler_def)
  have only: "\<exists>payload req c.
         prefix ''GitHub-Hookshot/'' (hUserAgent r) \<and>
         hContentType r = ''application/json'' \<and>
         rBody r = Some payload \<and> unmarshalPush lb payload = Some req \<and>
         bc (FullName (Repository req)) = Some c \<and>
         checkSecret lb payload (Secret c)
           (if hSignature256 r \<noteq> [] then hSignature256 r else hSignature r) = None \<and>
         hEvent r = ''push'' \<and> \<not> Private (Repository req) \<and>
         Ref req = ''refs/heads/'' @ DefaultBranch (Repository req)"
    if built: "snd (githubWebhookHandler lb r bc) \<noteq> (bc, None)"
  proof -
    from built agent have a: "prefix ''GitHub-Hookshot/'' (hUserAgent r)"
      by auto
    with built ctype have ct: "hContentType r = ''application/json''"
      by auto
    from unsigned_never_acknowledged [of lb r bc] built
    obtain p q k where s: "rBody r = Some p" "unmarshalPush lb p = Some q"
      "bc (FullName (Repository q)) = Some k"
      "checkSecret lb p (Secret k)
         (if hSignature256 r \<noteq> [] then hSignature256 r else hSignature r) = None"
      by blast
    have "snd (snd (githubWebhookHandler lb r bc)) \<noteq> None \<or>
        fst (snd (githubWebhookHandler lb r bc)) \<noteq> bc"
      using built by (cases "githubWebhookHandler lb r bc") auto
    then have "hEvent r = ''push'' \<and> \<not> Private (Repository q) \<and>
        Ref q = ''refs/heads/'' @ DefaultBranch (Repository q)"
      by (rule mp [OF conjunct1 [OF signed_delivery_outcomes [of r p lb q bc k,
        OF a ct s(1) s(2) s(3) s(4)]]])
    with a ct s show ?thesis
      by (intro exI [of _ p] exI [of _ q] exI [of _ k] conjI) (elim conjE, assumption)+
  qed
  have passed: "(hEvent r = ''ping'' \<longrightarrow>
            githubWebhookHandler lb r bc = (\<lparr>status = 200, written = ''pong''\<rparr>, bc, None)) \<and>
         (hEvent r = ''push'' \<and> \<not> Private (Repository req) \<and>
          Ref req \<noteq> ''refs/heads/'' @ DefaultBranch (Repository req) \<longrightarrow>
            status (fst (githubWebhookHandler lb r bc)) = 200 \<and>
            snd (githubWebhookHandler lb r bc) = (bc, None)) \<and>
         (hEvent r = ''push'' \<and> Private (Repository req) \<longrightarrow>
            githubWebhookHandler lb r bc =
              (\<lparr>status = 500, written = ''Cannot Access Private Repos''\<rparr>, bc, None)) \<and>
         (hEvent r \<noteq> ''ping'' \<and> hEvent r \<noteq> ''push'' \<longrightarrow>
            githubWebhookHandler lb r bc =
              (\<lparr>status = 403, written = ''Action Forbidden''\<rparr>, bc, None))"
    if "rBody r = Some payload" "unmarshalPush lb payload = Some req"
      "bc (FullName (Repository req)) = Some c"
      "checkSecret lb payload (Secret c)
        (if hSignature256 r \<noteq> [] then hSignature256 r else hSignature r) = None"
      "prefix ''GitHub-Hookshot/'' (hUserAgent r)" "hContentType r = ''application/json''"
    by (rule conjunct2 [OF signed_delivery_outcomes [of r payload lb req bc c,
      OF that(5) that(6) that(1) that(2) that(3) that(4)]])
  show ?thesis
    apply (rule conjI)
     apply (rule impI)
     apply (erule only)
    apply (rule impI)
    apply (elim conjE)
    apply (rule conjI)
     apply (rule agent)
    apply (rule conjI)
     apply (rule ctype)
    apply (rule impI)
    apply (elim conjE)
    apply (rule passed; assumption)
    done
qed

lemma valid0:
  "prefix ''GitHub-Hookshot/'' (hUserAgent (delivery ev ''sha256=6d6163'' p))"
  "hContentType (delivery ev ''sha256=6d6163'' p) = ''application/json''"
  "rBody (delivery ev ''sha256=6d6163'' p) = Some p"
  "config0 ''owner/a'' = Some \<lparr>Secret = ''s3cret'', BuildingMutex = False, Queued = False\<rparr>"
  "checkSecret lib0 p ''s3cret''
     (if hSignature256 (delivery ev ''sha256=6d6163'' p) \<noteq> []
      then hSignature256 (delivery ev ''sha256=6d6163'' p)
      else hSignature (delivery ev ''sha256=6d6163'' p)) = None"
  by (simp_all add: handler0_defs)

lemma fields0:
  "hEvent (delivery ev sig p) = ev" "Private (Repository (push0 b ref)) = b"
  "Ref (push0 b ref) = ref" "DefaultBranch (Repository (push0 b ref)) = ''main''"
  "FullName (Repository (push0 b ref)) = ''owner/a''"
  by (simp_all add: delivery_def push0_def)

theorem build_only_for_default_branch_push_witness:
  "checkSecret lib0 ''push-main'' ''s3cret'' ''sha256=6d6163'' = None \<and>
   githubWebhookHandler lib0 (delivery ''ping'' ''sha256=6d6163'' ''push-main'') config0 =
     (\<lparr>status = 200, written = ''pong''\<rparr>, config0, None) \<and>
   snd (snd (githubWebhookHandler lib0 (delivery ''push'' ''sha256=6d6163'' ''push-main'') config0))
     = Some ''owner/a'' \<and>
   status (fst (githubWebhookHandler lib0 (delivery ''push'' ''sha256=6d6163'' ''push-tag'') config0))
     = 200 \<and>
   snd (githubWebhookHandler lib0 (delivery ''push'' ''sha256=6d6163'' ''push-tag'') config0)
     = (config0, None) \<and>
   status (fst (githubWebhookHandler lib0 (delivery ''push'' ''sha256=6d6163'' ''push-dev'') config0))
     = 200 \<and>
   snd (githubWebhookHandler lib0 (delivery ''push'' ''sha256=6d6163'' ''push-dev'') config0)
     = (config0, None) \<and>
   status (fst (githubWebhookHandler lib0 (delivery ''push'' ''sha256=6d6163'' ''push-odd'') config0))
     = 200 \<and>
   snd (githubWebhookHandler lib0 (delivery ''push'' ''sha256=6d6163'' ''push-odd'') config0)
     = (config0, None) \<and>
   githubWebhookHandler lib0 (delivery ''push'' ''sha256=6d6163'' ''private-push-tag'') config0 =
     (\<lparr>status = 500, written = ''Cannot Access Private Repos''\<rparr>, config0, None) \<and>
   githubWebhookHandler lib0 (delivery ''issues'' ''sha256=6d6163'' ''push-main'') config0 =
     (\<lparr>status = 403, written = ''Action Forbidden''\<rparr>, config0, None)"
proof -
  note f = fields0
  have s: "checkSecret lib0 ''push-main'' ''s3cret'' ''sha256=6d6163'' = None"
    by (simp add: handler0_defs)
  have u: "unmarshalPush lib0 ''push-main'' = Some (push0 False ''refs/heads/main'')"
    "unmarshalPush lib0 ''push-tag'' = Some (push0 False ''refs/tags/v1'')"
    "unmarshalPush lib0 ''push-dev'' = Some (push0 False ''refs/heads/dev'')"
    "unmarshalPush lib0 ''push-odd'' = Some (push0 False ''main'')"
    "unmarshalPush lib0 ''private-push-tag'' = Some (push0 True ''refs/tags/v1'')"
    by (simp_all add: lib0_def)
  have started: "snd (snd (githubWebhookHandler lib0
      (delivery ''push'' ''sha256=6d6163'' ''push-main'') config0)) = Some ''owner/a''"
    by (simp add: githubWebhookHandler_def handler0_defs TryLock_def Let_def)
  have t: "(ev = ''ping'' \<longrightarrow>
        githubWebhookHandler lib0 (delivery ev ''sha256=6d6163'' p) config0 =
          (\<lparr>status = 200, written = ''pong''\<rparr>, config0, None)) \<and>
     (ev = ''push'' \<and> \<not> b \<and> ref \<noteq> ''refs/heads/main'' \<longrightarrow>
        status (fst (githubWebhookHandler lib0 (delivery ev ''sha256=6d6163'' p) config0)) = 200 \<and>
        snd (githubWebhookHandler lib0 (delivery ev ''sha256=6d6163'' p) config0) = (config0, None)) \<and>
     (ev = ''push'' \<and> b \<longrightarrow>
        githubWebhookHandler lib0 (delivery ev ''sha256=6d6163'' p) config0 =
          (\<lparr>status = 500, written = ''Cannot Access Private Repos''\<rparr>, config0, None)) \<and>
     (ev \<noteq> ''ping'' \<and> ev \<noteq> ''push'' \<longrightarrow>
        githubWebhookHandler lib0 (delivery ev ''sha256=6d6163'' p) config0 =
          (\<lparr>status = 403, written = ''Action Forbidden''\<rparr>, config0, None))"
    if assms: "unmarshalPush lib0 p = Some (push0 b ref)" for ev p b ref
  proof -
    let ?r = "delivery ev ''sha256=6d6163'' p"
    let ?c = "\<lparr>Secret = ''s3cret'', BuildingMutex = False, Queued = False\<rparr>"
    have p1: "prefix ''GitHub-Hookshot/'' (hUserAgent ?r)"
      and p2: "hContentType ?r = ''application/json''"
      and p3: "rBody ?r = Some p"
      by (simp_all only: valid0)
    have p5: "config0 (FullName (Repository (push0 b ref))) = Some ?c"
      by (simp only: f valid0)
    have p6: "checkSecret lib0 p (Secret ?c)
        (if hSignature256 ?r \<noteq> [] then hSignature256 ?r else hSignature ?r) = None"
      by (simp only: buildConfigT.simps valid0)
    have hy: "rBody ?r = Some p \<and> unmarshalPush lib0 p = Some (push0 b ref) \<and>
        config0 (FullName (Repository (push0 b ref))) = Some ?c \<and>
        checkSecret lib0 p (Secret ?c)
          (if hSignature256 ?r \<noteq> [] then hSignature256 ?r else hSignature ?r) = None"
      by (intro conjI p3 assms p5 p6)
    have pc: "prefix ''GitHub-Hookshot/'' (hUserAgent ?r) \<and>
        hContentType ?r = ''application/json''"
      by (intro conjI p1 p2)
    note th = build_only_for_default_branch_push [where lb = lib0 and r = ?r and bc = config0
        and payload = p and req = "push0 b ref" and c = ?c]
    note passed = th [THEN conjunct2, THEN mp, OF hy, THEN conjunct2, THEN conjunct2,
        THEN mp, OF pc]
    from passed [unfolded f append.simps] show ?thesis
      by (elim conjE, intro conjI) assumption+
  qed
  have a1: "githubWebhookHandler lib0 (delivery ''ping'' ''sha256=6d6163'' ''push-main'') config0 =
      (\<lparr>status = 200, written = ''pong''\<rparr>, config0, None)"
    using t [OF u(1), of "''ping''"] by (elim conjE) simp
  have a2: "status (fst (githubWebhookHandler lib0
        (delivery ''push'' ''sha256=6d6163'' ''push-tag'') config0)) = 200 \<and>
      snd (githubWebhookHandler lib0 (delivery ''push'' ''sha256=6d6163'' ''push-tag'') config0)
        = (config0, None)"
    using t [OF u(2), of "''push''"] by (elim conjE) simp
  have a3: "status (fst (githubWebhookHandler lib0
        (delivery ''push'' ''sha256=6d6163'' ''push-dev'') config0)) = 200 \<and>
      snd (githubWebhookHandler lib0 (delivery ''push'' ''sha256=6d6163'' ''push-dev'') config0)
        = (config0, None)"
    using t [OF u(3), of "''push''"] by (elim conjE) simp
  have a4: "status (fst (githubWebhookHandler lib0
        (delivery ''push'' ''sha256=6d6163'' ''push-odd'') config0)) = 200 \<and>
      snd (githubWebhookHandler lib0 (delivery ''push'' ''sha256=6d6163'' ''push-odd'') config0)
        = (config0, None)"
    using t [OF u(4), of "''push''"] by (elim conjE) simp
  have a5: "githubWebhookHandler lib0
        (delivery ''push'' ''sha256=6d6163'' ''private-push-tag'') config0 =
      (\<lparr>status = 500, written = ''Cannot Access Private Repos''\<rparr>, config0, None)"
    using t [OF u(5), of "''push''"] by (elim conjE) simp
  have a6: "githubWebhookHandler lib0 (delivery ''issues'' ''sha256=6d6163'' ''push-main'') config0 =
      (\<lparr>status = 403, written = ''Action Forbidden''\<rparr>, config0, None)"
    using t [OF u(1), of "''issues''"] by (elim conjE) simp
  from s a1 started a2 a3 a4 a5 a6 show ?thesis
    by (intro conjI) (elim conjE, assumption)+
qed

text \<open>
  As the specification words it the property fails in three ways: a validly signed push to
  a tag of a private repository is answered 500, a validly signed ping whose Content-Type
  carries a charset is answered 400, and a validly signed push to a tag sent with another
  User-Agent is answered 401; none of them is answered 200.
\<close>

theorem tag_push_acknowledged_counterexample:
  "checkSecret lib0 ''private-push-tag'' ''s3cret'' ''sha256=6d6163'' = None \<and>
   unmarshalPush lib0 ''private-push-tag'' = Some (push0 True ''refs/tags/v1'') \<and>
   hEvent (delivery ''push'' ''sha256=6d6163'' ''private-push-tag'') = ''push'' \<and>
   Ref (push0 True ''refs/tags/v1'') = ''refs/tags/v1'' \<and>
   status (fst (githubWebhookHandler lib0
     (delivery ''push'' ''sha256=6d6163'' ''private-push-tag'') config0)) = 500 \<and>
   status (fst (githubWebhookHandler lib0
     (delivery ''push'' ''sha256=6d6163'' ''private-push-tag'') config0)) \<noteq> 200 \<and>
   checkSecret lib0 ''push-main'' ''s3cret'' ''sha256=6d6163'' = None \<and>
   status (fst (githubWebhookHandler lib0
     ((delivery ''ping'' ''sha256=6d6163'' ''push-main'')
        \<lparr>hContentType := ''application/json; charset=utf-8''\<rparr>) config0)) = 400 \<and>
   checkSecret lib0 ''push-tag'' ''s3cret'' ''sha256=6d6163'' = None \<and>
   unmarshalPush lib0 ''push-tag'' = Some (push0 False ''refs/tags/v1'') \<and>
   status (fst (githubWebhookHandler lib0
     ((delivery ''push'' ''sha256=6d6163'' ''push-tag'')
        \<lparr>hUserAgent := ''curl/8''\<rparr>) config0)) = 401"
  by (simp add: githubWebhookHandler_def handler0_defs Let_def)

section \<open>Pruning the images of the snapshot\<close>

lemma rmiTargets_append: "rmiTargets (xs @ ys) = rmiTargets xs @ rmiTargets ys"
  by (induction xs rule: rmiTargets.induct) simp_all

lemma removeImages_targets:
  "rmiTargets (removeImages e lb lines seen l) =
     rmiTargets l @ rev (remdups (rev (filter (\<lambda>i. i \<notin> set seen)
       (List.map_filter (unmarshalImage lb) lines))))"
proof (induction lines arbitrary: seen l)
  case Nil
  show ?case by (simp add: List.map_filter_simps)
next
  case (Cons line lines)
  show ?case
  proof (cases "unmarshalImage lb line")
    case None
    with Cons show ?thesis by (simp add: List.map_filter_simps)
  next
    case (Some ident)
    show ?thesis
    proof (cases "ident \<in> set seen")
      case True
      with Some Cons show ?thesis by (simp add: List.map_filter_simps)
    next
      case False
      have "filter (\<lambda>i. i \<notin> set (seen @ [ident])) xs =
          filter (\<lambda>i. i \<noteq> ident) (filter (\<lambda>i. i \<notin> set seen) xs)" for xs
        by (induction xs) auto
      moreover have "rev (remdups (rev (x # ys))) =
          x # rev (remdups (rev (filter (\<lambda>i. i \<noteq> x) ys)))" for x :: string and ys
      proof -
        have "remdups (zs @ [x]) = filter (\<lambda>i. i \<noteq> x) (remdups zs) @ [x]" for zs
          by (induction zs) auto
        then show ?thesis
          by (simp add: remdups_filter rev_filter)
      qed
      ultimately show ?thesis
        using False Some Cons [of "seen @ [ident]" "snd (runCmd e ''docker'' [''rmi'', ident] l)"]
        by (simp add: List.map_filter_simps runCmd_def rmiTargets_append)
    qed
  qed
qed

text \<open>
  To the removals already in the transcript the loop adds \<^verbatim>\<open>docker rmi\<close> once for
  every distinct identifier that decodes from a line it is given, in the order of first
  occurrence, and for nothing else.
\<close>

lemma removeImages_each_id_once:
  "rmiTargets (removeImages e lb lines [] l) =
     rmiTargets l @ rev (remdups (rev (List.map_filter (unmarshalImage lb) lines))) \<and>
   distinct (rev (remdups (rev (List.map_filter (unmarshalImage lb) lines)))) \<and>
   set (rev (remdups (rev (List.map_filter (unmarshalImage lb) lines)))) =
     set (List.map_filter (unmarshalImage lb) lines)"
  using removeImages_targets [of e lb lines "[]" l] by simp

section \<open>A deploy whose clone or build fails\<close>

lemma grows_refl: "grows P l l"
  by (simp add: grows_def)

lemma grows_trans: "grows P l l1 \<Longrightarrow> grows P l1 l2 \<Longrightarrow> grows P l l2"
  by (fastforce simp: grows_def)

lemma grows_snoc: "P x \<Longrightarrow> grows P l (l @ [x])"
  by (simp add: grows_def)

lemma grows_step: "grows P l l1 \<Longrightarrow> P x \<Longrightarrow> grows P l (l1 @ [x])"
  by (fastforce simp: grows_def)

lemma removeImages_grows:
  assumes "\<And>ident ok. P (EExec ''docker'' [''rmi'', ident] ok)"
  shows "grows P l (removeImages e lb lines seen l)"
proof (induction lines arbitrary: seen l)
  case Nil
  show ?case by (simp add: grows_refl)
next
  case (Cons line lines)
  have "grows P l (snd (runCmd e ''docker'' [''rmi'', ident] l))" for ident
    by (simp add: runCmd_def grows_snoc assms)
  with Cons show ?case
    by (auto split: option.splits intro: grows_trans)
qed

lemma updateState_grows:
  "P (ENow (clock e l)) \<Longrightarrow> grows P l (fst (snd (updateState e name r p ip (l, st))))"
  by (auto simp: updateState_def timeNow_def grows_refl grows_snoc split: option.splits)

lemma updateRunning_grows:
  "P (ENow (clock e l)) \<Longrightarrow> grows P l (fst (snd (updateRunning e name r p (l, st))))"
  by (auto simp: updateRunning_def timeNow_def grows_refl grows_snoc split: option.splits)

lemma CheckContainer_grows:
  assumes "\<And>t. P (ENow t)" and "\<And>n r. P (EGet n r)"
  shows "grows P l (fst (snd (CheckContainer e name (l, st))))"
proof -
  obtain r l1 where ex: "dockerExecJson e name l = (r, l1)"
    by (cases "dockerExecJson e name l")
  then have g1: "grows P l l1"
    using assms(2) by (auto simp: dockerExecJson_def grows_snoc)
  show ?thesis
  proof (cases "IsRegistered name st")
    case False
    then show ?thesis by (simp add: CheckContainer_def grows_refl)
  next
    case True
    show ?thesis
    proof (cases r)
      case (Inl err)
      with True ex g1 show ?thesis by (simp add: CheckContainer_def)
    next
      case (Inr result)
      have "grows P l1 (fst (snd (updateState e name (State_Running result)
          (State_Paused result) (inspectAddress result) (l1, st))))"
        by (rule updateState_grows) (rule assms(1))
      with g1 have "grows P l (fst (snd (updateState e name (State_Running result)
          (State_Paused result) (inspectAddress result) (l1, st))))"
        by (rule grows_trans)
      with True ex Inr show ?thesis
        by (auto simp: CheckContainer_def split: prod.splits option.splits)
    qed
  qed
qed

lemma StopContainer_grows:
  assumes "\<And>t. P (ENow t)" and "\<And>n a r. P (EPost n a r)"
  shows "grows P l (fst (snd (StopContainer e name (l, st))))"
proof -
  obtain r l1 where ex: "dockerExecCmd e name ''stop'' l = (r, l1)"
    by (cases "dockerExecCmd e name ''stop'' l")
  then have g1: "grows P l l1"
    using assms(2) by (auto simp: dockerExecCmd_def grows_snoc)
  have "grows P l1 (fst (snd (updateRunning e name False False (l1, st))))"
    by (rule updateRunning_grows) (rule assms(1))
  with g1 have "grows P l (fst (snd (updateRunning e name False False (l1, st))))"
    by (rule grows_trans)
  with ex g1 show ?thesis
    by (auto simp: StopContainer_def grows_refl split: option.splits)
qed

lemma replaceContainer_grows:
  assumes now: "\<And>t. P (ENow t)" and get: "\<And>n r. P (EGet n r)"
    and post: "\<And>n a r. P (EPost n a r)"
    and cmd: "\<And>args ok. take 1 args = [''rm''] \<or> take 1 args = [''run''] \<Longrightarrow>
        P (EExec ''docker'' args ok)"
  shows "grows P l (fst (snd (replaceContainer e repoName containerName ex (l, st))))"
proof -
  obtain ok l1 st1 where sr: "(if ex then stopAndRemove e containerName (l, st)
      else (True, (l, st))) = (ok, (l1, st1))"
    by (metis prod.collapse)
  have g1: "grows P l l1"
  proof (cases ex)
    case False
    with sr show ?thesis by (simp add: grows_refl)
  next
    case True
    have s: "grows P l (fst (snd (StopContainer e containerName (l, st))))"
      by (rule StopContainer_grows) (rule now, rule post)
    have rm: "P (EExec ''docker'' [''rm'', containerName] ok')" for ok'
      by (rule cmd) simp
    from True sr have "stopAndRemove e containerName (l, st) = (ok, (l1, st1))"
      by simp
    with s show ?thesis
      by (auto simp: stopAndRemove_def runCmd_def split: prod.splits option.splits
          intro: grows_step rm)
  qed
  show ?thesis
  proof (cases ok)
    case False
    with sr g1 show ?thesis by (simp add: replaceContainer_def)
  next
    case True
    let ?run = "[''run'', ''-d'', ''--name'', containerName, repoName @ '':local'']"
    let ?l2 = "l1 @ [EExec ''docker'' ?run (execCmd e l1 ''docker'' ?run)]"
    have g2: "grows P l ?l2"
      using g1 by (rule grows_step) (rule cmd, simp)
    show ?thesis
    proof (cases "execCmd e l1 ''docker'' ?run")
      case False
      with True sr g2 show ?thesis
        by (simp add: replaceContainer_def runCmd_def)
    next
      case ran: True
      obtain q l3 st3 where ck: "CheckContainer e containerName (?l2, st1) = (q, (l3, st3))"
        by (metis prod.collapse)
      have "grows P ?l2 (fst (snd (CheckContainer e containerName (?l2, st1))))"
        by (rule CheckContainer_grows) (rule now, rule get)
      with ck g2 have g3: "grows P l l3"
        by (auto intro: grows_trans)
      from True ran sr ck g3 show ?thesis
        by (cases q) (simp_all add: replaceContainer_def runCmd_def)
    qed
  qed
qed

lemma swapContainer_grows:
  assumes now: "\<And>t. P (ENow t)" and get: "\<And>n r. P (EGet n r)"
    and post: "\<And>n a r. P (EPost n a r)"
    and cmd: "\<And>args ok. take 1 args \<noteq> [''build''] \<Longrightarrow> P (EExec ''docker'' args ok)"
    and say: "\<And>s. P (EPrint s)"
  shows "grows P l (fst (swapContainer e lb repoName containerName ex imagesRaw (l, st)))"
proof -
  obtain ok l3 st3 where rc: "replaceContainer e repoName containerName ex (l, st) = (ok, (l3, st3))"
    by (metis prod.collapse)
  have "grows P l (fst (snd (replaceContainer e repoName containerName ex (l, st))))"
    by (rule replaceContainer_grows) (rule now, rule get, rule post, rule cmd, auto)
  with rc have g3: "grows P l l3" by simp
  show ?thesis
  proof (cases ok)
    case False
    with rc g3 show ?thesis by (simp add: swapContainer_def)
  next
    case True
    let ?l4 = "l3 @ [successfullyDeployed containerName,
        EPrint (''Cleaning up old images...'' @ [CHR 0x0A])]"
    have "grows P l3 ?l4"
      by (simp add: grows_def successfullyDeployed_def say)
    with g3 have g4: "grows P l ?l4" by (rule grows_trans)
    have "grows P ?l4 (removeImages e lb (splitOn (CHR 0x0A) imagesRaw) [] ?l4)"
      by (rule removeImages_grows) (rule cmd, simp)
    with g4 have "grows P l (removeImages e lb (splitOn (CHR 0x0A) imagesRaw) [] ?l4)"
      by (rule grows_trans)
    then have "grows P l (removeImages e lb (splitOn (CHR 0x0A) imagesRaw) [] ?l4
        @ [EPrint (''Finished Cleaning up old images'' @ [CHR 0x0A])])"
      by (rule grows_step) (rule say)
    with True rc show ?thesis by (simp add: swapContainer_def)
  qed
qed

text \<open>What a deploy leaves in the transcript, by the step at which it returns.\<close>

lemma deployBody_shape:
  assumes run: "deployBody e lb repoName (l, st) = (l', st')"
    and ck: "snd (CheckContainer e (RepoNameToContainerName repoName) (l, st)) = (l1, st1)"
    and now: "\<And>t. P (ENow t)" and get: "\<And>n r. P (EGet n r)"
    and post: "\<And>n a r. P (EPost n a r)"
    and cmd: "\<And>args ok. take 1 args \<noteq> [''build''] \<Longrightarrow> P (EExec ''docker'' args ok)"
    and say: "\<And>s. P (EPrint s)"
  shows "(l' = l1 \<and> st' = st1) \<or>
     (\<exists>r. l' = l1 @ [EImages repoName r] \<and> st' = st1) \<or>
     (\<exists>r. l' = l1 @ [EImages repoName r,
         EMkdirTemp (RepoNameToContainerName repoName @ ''-*'') None] \<and> st' = st1) \<or>
     (\<exists>r repoDir url ok. l' = l1 @ [EImages repoName r,
         EMkdirTemp (RepoNameToContainerName repoName @ ''-*'') (Some repoDir),
         EExec ''git'' [''clone'', url, repoDir] False,
         ERemoveAll repoDir ok] \<and> st' = st1) \<or>
     (\<exists>r repoDir url ok. l' = l1 @ [EImages repoName r,
         EMkdirTemp (RepoNameToContainerName repoName @ ''-*'') (Some repoDir),
         EExec ''git'' [''clone'', url, repoDir] True,
         EExec ''docker'' [''build'', ''-t'', repoName, repoDir] False,
         ERemoveAll repoDir ok] \<and> st' = st1) \<or>
     (\<exists>r repoDir url ok xs. l' = l1 @ [EImages repoName r,
         EMkdirTemp (RepoNameToContainerName repoName @ ''-*'') (Some repoDir),
         EExec ''git'' [''clone'', url, repoDir] True,
         EExec ''docker'' [''build'', ''-t'', repoName, repoDir] True] @ xs @
         [ERemoveAll repoDir ok] \<and> (\<forall>x \<in> set xs. P x) \<and>
         (\<exists>ex raw. r = ImagesOutput raw \<and> imagesCmd e l1 repoName = ImagesOutput raw \<and>
            fst (swapContainer e lb repoName (RepoNameToContainerName repoName) ex raw
              (l1 @ [EImages repoName r,
                 EMkdirTemp (RepoNameToContainerName repoName @ ''-*'') (Some repoDir),
                 EExec ''git'' [''clone'', url, repoDir] True,
                 EExec ''docker'' [''build'', ''-t'', repoName, repoDir] True], st1)) =
            l1 @ [EImages repoName r,
                 EMkdirTemp (RepoNameToContainerName repoName @ ''-*'') (Some repoDir),
                 EExec ''git'' [''clone'', url, repoDir] True,
                 EExec ''docker'' [''build'', ''-t'', repoName, repoDir] True] @ xs))"
proof -
  let ?cn = "RepoNameToContainerName repoName"
  obtain q where q: "CheckContainer e ?cn (l, st) = (q, (l1, st1))"
    using ck by (cases "CheckContainer e ?cn (l, st)") simp
  show ?thesis
  proof (cases "\<exists>err. q = Inl err \<and> err \<noteq> ErrorDoesNotExist")
    case True
    with run q show ?thesis
      by (auto simp: deployBody_def Let_def)
  next
    case False
    then obtain ex where li: "listImages e lb repoName ?cn ex (l1, st1) = (l', st')"
      using run q by (cases q) (auto simp: deployBody_def Let_def split: if_splits)
    show ?thesis
    proof (cases "imagesCmd e l1 repoName")
      case (ImagesOutput raw)
      let ?l2 = "l1 @ [EImages repoName (ImagesOutput raw)]"
      from li ImagesOutput
      have sc: "inScratchDir e lb repoName ?cn ex raw (?l2, st1) = (l', st')"
        by (simp add: listImages_def)
      show ?thesis
      proof (cases "mkdirTemp e ?l2 (?cn @ ''-*'')")
        case None
        with sc show ?thesis
          by (auto simp: inScratchDir_def)
      next
        case (Some repoDir)
        let ?l3 = "?l2 @ [EMkdirTemp (?cn @ ''-*'') (Some repoDir)]"
        let ?clone = "[''clone'', ''https://github.com/'' @ repoName @ ''.git'', repoDir]"
        let ?build = "[''build'', ''-t'', repoName, repoDir]"
        obtain l4 st4 where cb:
          "cloneAndBuild e lb repoName ?cn ex raw repoDir (?l3, st1) = (l4, st4)"
          by (metis prod.collapse)
        from sc Some cb have fin: "l' = l4 @ [ERemoveAll repoDir (removeAll e l4 repoDir)]"
          and st': "st' = st4"
          by (simp_all add: inScratchDir_def)
        show ?thesis
        proof (cases "execCmd e ?l3 ''git'' ?clone")
          case False
          with cb have "l4 = ?l3 @ [EExec ''git'' ?clone False]" and "st4 = st1"
            by (simp_all add: cloneAndBuild_def runCmd_def)
          with fin st' show ?thesis by simp
        next
          case cloned: True
          let ?l5 = "?l3 @ [EExec ''git'' ?clone True]"
          show ?thesis
          proof (cases "execCmd e ?l5 ''docker'' ?build")
            case False
            with cloned cb
            have "l4 = ?l5 @ [EExec ''docker'' ?build False]" and "st4 = st1"
              by (simp_all add: cloneAndBuild_def runCmd_def)
            with fin st' show ?thesis by simp
          next
            case built: True
            let ?l6 = "?l5 @ [EExec ''docker'' ?build True]"
            from cloned built cb
            have sw: "swapContainer e lb repoName ?cn ex raw (?l6, st1) = (l4, st4)"
              by (simp add: cloneAndBuild_def runCmd_def)
            have "grows P ?l6 (fst (swapContainer e lb repoName ?cn ex raw (?l6, st1)))"
              by (rule swapContainer_grows) (rule now, rule get, rule post, erule cmd, rule say)
            with sw obtain xs where xs: "l4 = ?l6 @ xs" "\<forall>x \<in> set xs. P x"
              by (auto simp: grows_def)
            have "\<exists>ex' raw'. ImagesOutput raw = ImagesOutput raw' \<and>
                imagesCmd e l1 repoName = ImagesOutput raw' \<and>
                fst (swapContainer e lb repoName ?cn ex' raw' (?l6, st1)) = ?l6 @ xs"
              using sw ImagesOutput xs(1) by (intro exI [of _ ex] exI [of _ raw]) simp
            with fin xs show ?thesis by simp
          qed
        qed
      qed
    next
      case PipeFailed
      with li show ?thesis by (auto simp: listImages_def)
    next
      case StartFailed
      with li show ?thesis by (auto simp: listImages_def)
    next
      case ReadFailed
      with li show ?thesis by (auto simp: listImages_def)
    qed
  qed
qed

lemma CheckContainer_frame:
  "n \<noteq> name \<Longrightarrow> snd (snd (CheckContainer e name (l, st))) n = st n"
  by (auto simp: CheckContainer_def updateState_def timeNow_def
      split: prod.splits sum.splits option.splits)

text \<open>
  C9, as the code has it. In a deploy run in which \<^verbatim>\<open>git clone\<close> or
  \<^verbatim>\<open>docker build\<close> fails, the run sends no command to the runtime that stops, removes,
  creates or starts a container or removes an image; the cache is what the inspect at the
  start of the deploy left (that inspect rewrites the entry of this repository's container
  and no other entry); a scratch directory was created and its removal is the last thing
  the run does. In every run, failed or not, a scratch directory that was created is
  removed as the last thing the run does.
\<close>

theorem failed_build_leaves_container:
  assumes run: "deployBody e lb repoName (l, st) = (l', st')"
  shows
    "((\<exists>x \<in> set (drop (length l) l'). buildStepFailed x) \<longrightarrow>
        (\<forall>x \<in> set (drop (length l) l'). \<not> touchesContainer x) \<and>
        st' = snd (snd (CheckContainer e (RepoNameToContainerName repoName) (l, st))) \<and>
        (\<forall>n. n \<noteq> RepoNameToContainerName repoName \<longrightarrow> st' n = st n) \<and>
        (\<exists>repoDir ok.
           EMkdirTemp (RepoNameToContainerName repoName @ ''-*'') (Some repoDir)
             \<in> set (drop (length l) l') \<and>
           last l' = ERemoveAll repoDir ok)) \<and>
     (\<forall>repoDir.
        EMkdirTemp (RepoNameToContainerName repoName @ ''-*'') (Some repoDir)
          \<in> set (drop (length l) l') \<longrightarrow>
        (\<exists>ok. last l' = ERemoveAll repoDir ok))"
proof -
  let ?cn = "RepoNameToContainerName repoName"
  let ?R = "\<lambda>x. \<not> touchesContainer x \<and> \<not> buildStepFailed x \<and> (\<forall>p d. x \<noteq> EMkdirTemp p d)"
  let ?P = "\<lambda>x. \<not> buildStepFailed x \<and> (\<forall>p d. x \<noteq> EMkdirTemp p d)"
  obtain l1 st1 where ck: "snd (CheckContainer e ?cn (l, st)) = (l1, st1)"
    by (metis prod.collapse)
  have "grows ?R l (fst (snd (CheckContainer e ?cn (l, st))))"
    by (rule CheckContainer_grows) simp_all
  with ck obtain c where l1: "l1 = l @ c" and c: "\<forall>x \<in> set c. ?R x"
    by (auto simp: grows_def)
  have st1: "st1 = snd (snd (CheckContainer e ?cn (l, st)))"
    using ck by simp
  have fr: "\<forall>n. n \<noteq> ?cn \<longrightarrow> st1 n = st n"
    using CheckContainer_frame [of _ ?cn e l st] st1 by simp
  have shape: "(l' = l1 \<and> st' = st1) \<or>
     (\<exists>r. l' = l1 @ [EImages repoName r] \<and> st' = st1) \<or>
     (\<exists>r. l' = l1 @ [EImages repoName r, EMkdirTemp (?cn @ ''-*'') None] \<and> st' = st1) \<or>
     (\<exists>r repoDir url ok. l' = l1 @ [EImages repoName r,
         EMkdirTemp (?cn @ ''-*'') (Some repoDir),
         EExec ''git'' [''clone'', url, repoDir] False,
         ERemoveAll repoDir ok] \<and> st' = st1) \<or>
     (\<exists>r repoDir url ok. l' = l1 @ [EImages repoName r,
         EMkdirTemp (?cn @ ''-*'') (Some repoDir),
         EExec ''git'' [''clone'', url, repoDir] True,
         EExec ''docker'' [''build'', ''-t'', repoName, repoDir] False,
         ERemoveAll repoDir ok] \<and> st' = st1) \<or>
     (\<exists>r repoDir url ok xs. l' = l1 @ [EImages repoName r,
         EMkdirTemp (?cn @ ''-*'') (Some repoDir),
         EExec ''git'' [''clone'', url, repoDir] True,
         EExec ''docker'' [''build'', ''-t'', repoName, repoDir] True] @ xs @
         [ERemoveAll repoDir ok] \<and> (\<forall>x \<in> set xs. ?P x) \<and>
         (\<exists>ex raw. r = ImagesOutput raw \<and> imagesCmd e l1 repoName = ImagesOutput raw \<and>
            fst (swapContainer e lb repoName ?cn ex raw
              (l1 @ [EImages repoName r,
                 EMkdirTemp (?cn @ ''-*'') (Some repoDir),
                 EExec ''git'' [''clone'', url, repoDir] True,
                 EExec ''docker'' [''build'', ''-t'', repoName, repoDir] True], st1)) =
            l1 @ [EImages repoName r,
                 EMkdirTemp (?cn @ ''-*'') (Some repoDir),
                 EExec ''git'' [''clone'', url, repoDir] True,
                 EExec ''docker'' [''build'', ''-t'', repoName, repoDir] True] @ xs))"
    by (rule deployBody_shape [OF run ck, of ?P]) simp_all
  then consider
      (state) "l' = l1" "st' = st1"
    | (images) r where "l' = l1 @ [EImages repoName r]" "st' = st1"
    | (tempdir) r where "l' = l1 @ [EImages repoName r, EMkdirTemp (?cn @ ''-*'') None]"
        "st' = st1"
    | (clone) r repoDir url ok where "l' = l1 @ [EImages repoName r,
         EMkdirTemp (?cn @ ''-*'') (Some repoDir),
         EExec ''git'' [''clone'', url, repoDir] False, ERemoveAll repoDir ok]" "st' = st1"
    | (build) r repoDir url ok where "l' = l1 @ [EImages repoName r,
         EMkdirTemp (?cn @ ''-*'') (Some repoDir),
         EExec ''git'' [''clone'', url, repoDir] True,
         EExec ''docker'' [''build'', ''-t'', repoName, repoDir] False,
         ERemoveAll repoDir ok]" "st' = st1"
    | (swap) r repoDir url ok xs where "l' = l1 @ [EImages repoName r,
         EMkdirTemp (?cn @ ''-*'') (Some repoDir),
         EExec ''git'' [''clone'', url, repoDir] True,
         EExec ''docker'' [''build'', ''-t'', repoName, repoDir] True] @ xs @
         [ERemoveAll repoDir ok]" "\<forall>x \<in> set xs. ?P x"
    by blast
  then show ?thesis
  proof cases
    case state
    with l1 c show ?thesis by auto
  next
    case images
    with l1 c show ?thesis by auto
  next
    case tempdir
    with l1 c show ?thesis by auto
  next
    case clone
    with l1 c st1 fr show ?thesis by auto
  next
    case build
    with l1 c st1 fr show ?thesis by auto
  next
    case swap
    with l1 c show ?thesis by auto
  qed
qed

lemmas deploy_defs =
  deployBody_def listImages_def inScratchDir_def cloneAndBuild_def swapContainer_def
  replaceContainer_def successfullyDeployed_def stopAndRemove_def runCmd_def
  RepoNameToContainerName_def replaceSlash_def
  RegisterContainer_def zeroState_def cacheA_def envCloneFails_def envBuildFails_def

lemma clone_fails_run:
  "deployBody envCloneFails lib0 ''owner/a'' ([], cacheA) =
     ([EGet ''bs-owner-a'' (GetStatus 200 (Some inspect0)),
       ENow 63870000001000000000,
       EImages ''owner/a'' (ImagesOutput []),
       EMkdirTemp ''bs-owner-a-*'' (Some ''/tmp/bs-1''),
       EExec ''git'' [''clone'', ''https://github.com/owner/a.git'', ''/tmp/bs-1''] False,
       ERemoveAll ''/tmp/bs-1'' True],
      [''bs-owner-a'' \<mapsto> \<lparr>Running = True, Paused = False, LastUsed = None,
         IPAddress = ''172.17.0.2'', LastUpdate = Some 63870000001000000000\<rparr>])"
  by (simp add: deploy_defs run_defs env0_def inspect0_def Let_def)

lemma build_fails_run:
  "deployBody envBuildFails lib0 ''owner/a'' ([], cacheA) =
     ([EGet ''bs-owner-a'' (GetStatus 200 (Some inspect0)),
       ENow 63870000001000000000,
       EImages ''owner/a'' (ImagesOutput []),
       EMkdirTemp ''bs-owner-a-*'' (Some ''/tmp/bs-1''),
       EExec ''git'' [''clone'', ''https://github.com/owner/a.git'', ''/tmp/bs-1''] True,
       EExec ''docker'' [''build'', ''-t'', ''owner/a'', ''/tmp/bs-1''] False,
       ERemoveAll ''/tmp/bs-1'' True],
      [''bs-owner-a'' \<mapsto> \<lparr>Running = True, Paused = False, LastUsed = None,
         IPAddress = ''172.17.0.2'', LastUpdate = Some 63870000001000000000\<rparr>])"
  by (simp add: deploy_defs run_defs env0_def inspect0_def Let_def)

theorem failed_build_leaves_container_witness:
  "buildStepFailed
     (EExec ''git'' [''clone'', ''https://github.com/owner/a.git'', ''/tmp/bs-1''] False) \<and>
   EExec ''git'' [''clone'', ''https://github.com/owner/a.git'', ''/tmp/bs-1''] False
     \<in> set (drop (length []) (fst (deployBody envCloneFails lib0 ''owner/a'' ([], cacheA)))) \<and>
   filter touchesContainer (fst (deployBody envCloneFails lib0 ''owner/a'' ([], cacheA))) = [] \<and>
   last (fst (deployBody envCloneFails lib0 ''owner/a'' ([], cacheA))) =
     ERemoveAll ''/tmp/bs-1'' True \<and>
   buildStepFailed (EExec ''docker'' [''build'', ''-t'', ''owner/a'', ''/tmp/bs-1''] False) \<and>
   EExec ''docker'' [''build'', ''-t'', ''owner/a'', ''/tmp/bs-1''] False
     \<in> set (drop (length []) (fst (deployBody envBuildFails lib0 ''owner/a'' ([], cacheA)))) \<and>
   filter touchesContainer (fst (deployBody envBuildFails lib0 ''owner/a'' ([], cacheA))) = [] \<and>
   last (fst (deployBody envBuildFails lib0 ''owner/a'' ([], cacheA))) =
     ERemoveAll ''/tmp/bs-1'' True"
proof -
  have b: "buildStepFailed
      (EExec ''git'' [''clone'', ''https://github.com/owner/a.git'', ''/tmp/bs-1''] False)"
    "buildStepFailed (EExec ''docker'' [''build'', ''-t'', ''owner/a'', ''/tmp/bs-1''] False)"
    by simp_all
  have m: "EExec ''git'' [''clone'', ''https://github.com/owner/a.git'', ''/tmp/bs-1''] False
      \<in> set (drop (length []) (fst (deployBody envCloneFails lib0 ''owner/a'' ([], cacheA))))"
    "EExec ''docker'' [''build'', ''-t'', ''owner/a'', ''/tmp/bs-1''] False
      \<in> set (drop (length []) (fst (deployBody envBuildFails lib0 ''owner/a'' ([], cacheA))))"
    by (simp_all add: clone_fails_run build_fails_run)
  have l: "last (fst (deployBody envCloneFails lib0 ''owner/a'' ([], cacheA))) =
      ERemoveAll ''/tmp/bs-1'' True"
    "last (fst (deployBody envBuildFails lib0 ''owner/a'' ([], cacheA))) =
      ERemoveAll ''/tmp/bs-1'' True"
    by (simp_all add: clone_fails_run build_fails_run)
  have "\<forall>x \<in> set (fst (deployBody envCloneFails lib0 ''owner/a'' ([], cacheA))).
      \<not> touchesContainer x"
    using failed_build_leaves_container [OF clone_fails_run] b(1) m(1)
    by (simp only: clone_fails_run fst_conv) (elim conjE impE, rule bexI, assumption+, simp)
  then have t1:
    "filter touchesContainer (fst (deployBody envCloneFails lib0 ''owner/a'' ([], cacheA))) = []"
    by (simp only: filter_empty_conv)
  have "\<forall>x \<in> set (fst (deployBody envBuildFails lib0 ''owner/a'' ([], cacheA))).
      \<not> touchesContainer x"
    using failed_build_leaves_container [OF build_fails_run] b(2) m(2)
    by (simp only: build_fails_run fst_conv) (elim conjE impE, rule bexI, assumption+, simp)
  then have t2:
    "filter touchesContainer (fst (deployBody envBuildFails lib0 ''owner/a'' ([], cacheA))) = []"
    by (simp only: filter_empty_conv)
  from b m l t1 t2 show ?thesis
    by (intro conjI) assumption+
qed

text \<open>
  As the specification words it the property fails for the cache: the inspect at the start of the deploy rewrites
  the cached entry, so after a deploy whose clone failed the entry is not what it was.
\<close>

theorem failed_build_cache_counterexample:
  "buildStepFailed
     (EExec ''git'' [''clone'', ''https://github.com/owner/a.git'', ''/tmp/bs-1''] False) \<and>
   EExec ''git'' [''clone'', ''https://github.com/owner/a.git'', ''/tmp/bs-1''] False
     \<in> set (fst (deployBody envCloneFails lib0 ''owner/a'' ([], cacheA))) \<and>
   cacheA ''bs-owner-a'' = Some \<lparr>Running = False, Paused = False, LastUsed = None,
     IPAddress = [], LastUpdate = None\<rparr> \<and>
   snd (deployBody envCloneFails lib0 ''owner/a'' ([], cacheA)) ''bs-owner-a'' =
     Some \<lparr>Running = True, Paused = False, LastUsed = None, IPAddress = ''172.17.0.2'',
       LastUpdate = Some 63870000001000000000\<rparr> \<and>
   snd (deployBody envCloneFails lib0 ''owner/a'' ([], cacheA)) ''bs-owner-a'' \<noteq>
     cacheA ''bs-owner-a''"
  by (simp add: clone_fails_run) (simp add: cacheA_def RegisterContainer_def IsRegistered_def
      zeroState_def)

section \<open>Pruning after a successful deploy\<close>











section \<open>The build lock and the queued flag\<close>

lemma coherent_step: "coherent c \<Longrightarrow> coherent (step c ev)"
  by (cases ev) (auto simp: coherent_def TryLock_def)

lemma coherent_idle: "coherent (idleCoordinator secret)"
  by (simp add: coherent_def idleCoordinator_def)

text \<open>At most one deploy runs at a time, and it runs exactly while the mutex is held.\<close>

lemma one_deploy_at_a_time: "coherent (foldl step (idleCoordinator secret) evs)"
proof -
  have "coherent c \<Longrightarrow> coherent (foldl step c evs)" for c
    by (induction evs arbitrary: c) (simp_all add: coherent_step)
  then show ?thesis by (simp add: coherent_idle)
qed

lemma undisturbed_request:
  assumes "BuildingMutex (config c)" and "waiting c = 0"
  shows "Queued (config (foldl step c [HandlerTryLock, HandlerSetQueued])) \<and>
         BuildingMutex (config (foldl step c [HandlerTryLock, HandlerSetQueued])) \<and>
         waiting (foldl step c [HandlerTryLock, HandlerSetQueued]) = 0 \<and>
         deploying (foldl step c [HandlerTryLock, HandlerSetQueued]) = deploying c \<and>
         runs (foldl step c [HandlerTryLock, HandlerSetQueued]) = runs c"
  using assms by (simp add: TryLock_def)

lemma undisturbed_requests:
  assumes "BuildingMutex (config c)" and "waiting c = 0"
  shows "Queued (config (foldl step c (undisturbedRequests (Suc n)))) \<and>
         BuildingMutex (config (foldl step c (undisturbedRequests (Suc n)))) \<and>
         waiting (foldl step c (undisturbedRequests (Suc n))) = 0 \<and>
         deploying (foldl step c (undisturbedRequests (Suc n))) = deploying c \<and>
         runs (foldl step c (undisturbedRequests (Suc n))) = runs c"
  using assms
proof (induction n arbitrary: c)
  case 0
  then show ?case
    using undisturbed_request [of c] by (simp add: undisturbedRequests_def)
next
  case (Suc n)
  let ?c1 = "foldl step c [HandlerTryLock, HandlerSetQueued]"
  have u: "undisturbedRequests (Suc (Suc n)) =
      [HandlerTryLock, HandlerSetQueued] @ undisturbedRequests (Suc n)"
    by (simp add: undisturbedRequests_def)
  from undisturbed_request [OF Suc.prems]
  have c1: "BuildingMutex (config ?c1)" "waiting ?c1 = 0"
    "deploying ?c1 = deploying c" "runs ?c1 = runs c"
    by simp_all
  from Suc.IH [OF c1(1) c1(2)] c1(3) c1(4) show ?case
    unfolding u foldl_append by simp
qed

text \<open>
  When every request runs undisturbed from its \<^verbatim>\<open>TryLock\<close> to its assignment, any
  number of requests during a deploy gives exactly one more run, with the mutex held
  throughout, and the mutex is freed when that run returns.
\<close>

lemma undisturbed_requests_coalesce:
  assumes "BuildingMutex (config c)" and "waiting c = 0" and "deploying c = 1"
  shows "runs (foldl step c (undisturbedRequests (Suc n) @ [DeployReturns])) = runs c + 1 \<and>
         BuildingMutex (config (foldl step c (undisturbedRequests (Suc n) @ [DeployReturns]))) \<and>
         \<not> Queued (config (foldl step c (undisturbedRequests (Suc n) @ [DeployReturns]))) \<and>
         runs (foldl step c (undisturbedRequests (Suc n) @ [DeployReturns, DeployReturns]))
           = runs c + 1 \<and>
         \<not> BuildingMutex (config
             (foldl step c (undisturbedRequests (Suc n) @ [DeployReturns, DeployReturns])))"
  using undisturbed_requests [OF assms(1) assms(2), of n] assms(3)
  by (simp add: foldl_append)

text \<open>
  C1, on the schedule on which it fails. The second request arrives while the mutex is
  held and is answered that its build is queued, yet when it sets the flag the deploy has
  already read the flag and freed the mutex: one deploy has run, none is running, the
  mutex is free and the flag stays set. The next request then starts a deploy that runs
  twice.
\<close>

theorem queued_rebuild_lost:
  "foldl step (idleCoordinator ''s3cret'') lostRebuild =
     \<lparr>config = \<lparr>Secret = ''s3cret'', BuildingMutex = False, Queued = True\<rparr>,
      waiting = 0, deploying = 0, runs = 1\<rparr> \<and>
   waiting (foldl step (idleCoordinator ''s3cret'') [HandlerTryLock, HandlerTryLock]) = 1 \<and>
   BuildingMutex (config
     (foldl step (idleCoordinator ''s3cret'') [HandlerTryLock, HandlerTryLock])) \<and>
   foldl step (idleCoordinator ''s3cret'')
       (lostRebuild @ [HandlerTryLock, DeployReturns, DeployReturns]) =
     \<lparr>config = \<lparr>Secret = ''s3cret'', BuildingMutex = False, Queued = False\<rparr>,
      waiting = 0, deploying = 0, runs = 3\<rparr>"
  by (simp add: lostRebuild_def idleCoordinator_def TryLock_def)

text \<open>
  The same two outcomes in \<^verbatim>\<open>deployApplication\<close> itself, run without interference
  with the mutex held: without a queued job the body runs once and the mutex is freed;
  with a queued job the flag is cleared, the body runs a second time, still under the
  mutex, and only then the mutex is freed.
\<close>

lemma deployApplication_not_queued:
  assumes "bc repoName = Some c" and "BuildingMutex c" and "\<not> Queued c"
  shows "deployApplication e lb repoName (w, bc) =
     Some (deployBody e lb repoName w, bc(repoName \<mapsto> c\<lparr>BuildingMutex := False\<rparr>))"
  using assms by (simp add: Unlock_def)

lemma deployApplication_queued:
  assumes "bc repoName = Some c" and "BuildingMutex c" and "Queued c"
  shows "deployApplication e lb repoName (w, bc) =
     Some (deployBody e lb repoName (deployBody e lb repoName w),
       bc(repoName \<mapsto> c\<lparr>Queued := False, BuildingMutex := False\<rparr>))"
proof -
  let ?bc1 = "bc(repoName \<mapsto> c\<lparr>Queued := False\<rparr>)"
  have "deployApplication e lb repoName (w, bc) =
      deployApplication e lb repoName (deployBody e lb repoName w, ?bc1)"
    using assms by (subst deployApplication.simps) simp
  also have "\<dots> = Some (deployBody e lb repoName (deployBody e lb repoName w),
      ?bc1(repoName \<mapsto> (c\<lparr>Queued := False\<rparr>)\<lparr>BuildingMutex := False\<rparr>))"
    using assms(2)
    by (intro deployApplication_not_queued) simp_all
  finally show ?thesis by simp
qed

text \<open>
  The handler's last step is the first two events of the coordinator: a validly signed
  push to the default branch of a repository that is not private takes the mutex and
  starts the deploy when the mutex is free, and sets the queued flag when it is not.
\<close>

lemma splitOn_no_separator: "c \<notin> set s \<Longrightarrow> splitOn c s = [s]"
  by (induction s) auto

lemma splitOn_heads:
  assumes "CHR ''/'' \<notin> set branch"
  shows "splitOn (CHR ''/'') (''refs/heads/'' @ branch) = [''refs'', ''heads'', branch]"
  using splitOn_no_separator [OF assms] by simp

lemma default_branch_push_builds:
  assumes "prefix ''GitHub-Hookshot/'' (hUserAgent r)"
    and "hContentType r = ''application/json''"
    and "rBody r = Some payload"
    and "unmarshalPush lb payload = Some req"
    and "bc (FullName (Repository req)) = Some c"
    and "checkSecret lb payload (Secret c)
           (if hSignature256 r \<noteq> [] then hSignature256 r else hSignature r) = None"
    and "hEvent r = ''push''" and "\<not> Private (Repository req)"
    and "Ref req = ''refs/heads/'' @ DefaultBranch (Repository req)"
    and "CHR ''/'' \<notin> set (DefaultBranch (Repository req))"
  shows "snd (githubWebhookHandler lb r bc) =
     (bc(FullName (Repository req) \<mapsto>
        config (foldl step \<lparr>config = c, waiting = 0, deploying = d, runs = n\<rparr>
          [HandlerTryLock, HandlerSetQueued])),
      if BuildingMutex c then None else Some (FullName (Repository req)))"
proof -
  have h: "githubWebhookHandler lb r bc =
     (if hEvent r = ''ping'' then (\<lparr>status = 200, written = ''pong''\<rparr>, bc, None)
      else if hEvent r \<noteq> ''push'' then
        (\<lparr>status = 403, written = ''Action Forbidden''\<rparr>, bc, None)
      else if Private (Repository req) then
        (\<lparr>status = 500, written = ''Cannot Access Private Repos''\<rparr>, bc, None)
      else
        (let ref = splitOn (CHR ''/'') (Ref req);
             branch = DefaultBranch (Repository req) in
         if length ref \<noteq> 3 \<or> ref ! 0 \<noteq> ''refs'' then
           (ignoring ''Ignoring push to '' (Ref req) branch, bc, None)
         else if ref ! 1 = ''tags'' then
           (ignoring ''Ignoring push to tag '' (ref ! 2) branch, bc, None)
         else if ref ! 1 \<noteq> ''heads'' then
           (ignoring ''Ignoring push to '' (Ref req) branch, bc, None)
         else if ref ! 2 \<noteq> branch then
           (ignoring ''Ignoring push to branch '' (ref ! 2) branch, bc, None)
         else
           (case TryLock c of
              (False, conf') \<Rightarrow>
                (\<lparr>status = 200,
                  written = ''There is already a job deploying'' @ [CHR 0x0A] @
                    ''Adding the build job to the queue''\<rparr>,
                 bc(FullName (Repository req) \<mapsto> conf'\<lparr>Queued := True\<rparr>), None)
            | (True, conf') \<Rightarrow>
                (\<lparr>status = 200,
                  written = ''Deploying '' @ FullName (Repository req) @ ''...''\<rparr>,
                 bc(FullName (Repository req) \<mapsto> conf'), Some (FullName (Repository req))))))"
    using assms(1-6) by (rule handler_after_signature [of r payload lb req bc c])
  have sp: "splitOn (CHR ''/'') (Ref req) = [''refs'', ''heads'', DefaultBranch (Repository req)]"
    using splitOn_heads [OF assms(10)] assms(9) by simp
  show ?thesis
    using assms(7) assms(8)
    by (simp add: h sp Let_def TryLock_def)
qed


end
